theory Spec2Isabelle
  imports Complex_Main "HOL-Library.Sublist"
begin

section \<open>Southern California campsite tracker: model of the Python sources\<close>

text \<open>
  The development follows the Python sources file by file. Exceptions are values of
  the type \<open>error\<close>; a function that can raise returns \<open>error + 'a\<close> with \<open>Inl\<close> for
  the exception. The wall clock (\<open>date.today()\<close>, \<open>datetime.utcnow()\<close>) and the
  external services (SMTP relay, hosted data store) are explicit parameters.
\<close>

datatype error =
    ValueError string
  | OverflowError
  | IllegalMonthError
  | ValidationError
  | AttributeError
  | ZeroDivisionError
  | KeyError
  | SupabaseError string

subsection \<open>Calendar dates (Python's \<open>datetime.date\<close> and \<open>calendar\<close>)\<close>

text \<open>
  A \<open>date\<close> is represented by its proleptic Gregorian ordinal, the value of
  \<open>date.toordinal()\<close>: day 1 is 0001-01-01 and \<open>date.max\<close> = 9999-12-31 is day
  3652059. The functions below transcribe the arithmetic of the standard library
  (\<open>_is_leap\<close>, \<open>_days_before_year\<close>, \<open>_days_before_month\<close>, \<open>_ymd2ord\<close>,
  \<open>_ord2ymd\<close>, \<open>calendar.monthrange\<close>), including the exceptions raised at the
  limits of the type. Python's \<open>//\<close> and \<open>%\<close> are floor division and its remainder,
  as \<open>div\<close> and \<open>mod\<close> on \<open>int\<close> are.
\<close>

type_synonym date = int

definition MINYEAR :: int where "MINYEAR = 1"
definition MAXYEAR :: int where "MAXYEAR = 9999"
definition MAXORDINAL :: int where "MAXORDINAL = 3652059"

text \<open>The values a \<open>date\<close> object can take.\<close>

definition is_date :: "int \<Rightarrow> bool" where
  "is_date d = (1 \<le> d \<and> d \<le> MAXORDINAL)"

definition is_leap :: "int \<Rightarrow> bool" where
  "is_leap year = (year mod 4 = 0 \<and> (year mod 100 \<noteq> 0 \<or> year mod 400 = 0))"

definition DAYS_IN_MONTH :: "int list" where
  "DAYS_IN_MONTH = [-1, 31, 28, 31, 30, 31, 30, 31, 31, 30, 31, 30, 31]"

definition DAYS_BEFORE_MONTH :: "int list" where
  "DAYS_BEFORE_MONTH = [-1, 0, 31, 59, 90, 120, 151, 181, 212, 243, 273, 304, 334]"

definition days_before_year :: "int \<Rightarrow> int" where
  "days_before_year year =
     (let y = year - 1 in y * 365 + y div 4 - y div 100 + y div 400)"

definition days_in_month :: "int \<Rightarrow> int \<Rightarrow> int" where
  "days_in_month year month =
     (if month = 2 \<and> is_leap year then 29 else DAYS_IN_MONTH ! nat month)"

definition days_before_month :: "int \<Rightarrow> int \<Rightarrow> int" where
  "days_before_month year month =
     DAYS_BEFORE_MONTH ! nat month + (if month > 2 \<and> is_leap year then 1 else 0)"

definition ymd2ord :: "int \<Rightarrow> int \<Rightarrow> int \<Rightarrow> int" where
  "ymd2ord year month day = days_before_year year + days_before_month year month + day"

text \<open>\<open>date(year, month, day)\<close>: the constructor checks its fields and raises ValueError.\<close>

definition new_date :: "int \<Rightarrow> int \<Rightarrow> int \<Rightarrow> error + date" where
  "new_date year month day =
     (if \<not> (MINYEAR \<le> year \<and> year \<le> MAXYEAR) then Inl (ValueError ''year is out of range'')
      else if \<not> (1 \<le> month \<and> month \<le> 12) then Inl (ValueError ''month must be in 1..12'')
      else if \<not> (1 \<le> day \<and> day \<le> days_in_month year month)
        then Inl (ValueError ''day is out of range for month'')
      else Inr (ymd2ord year month day))"

text \<open>\<open>date.fromordinal(n)\<close> raises ValueError outside 1..MAXORDINAL.\<close>

definition fromordinal :: "int \<Rightarrow> error + date" where
  "fromordinal n =
     (if 1 \<le> n \<and> n \<le> MAXORDINAL then Inr n else Inl (ValueError ''ordinal out of range''))"

text \<open>\<open>d + timedelta(days=n)\<close> raises OverflowError when the result leaves the range.\<close>

definition add_days :: "date \<Rightarrow> int \<Rightarrow> error + date" where
  "add_days d n = (let o' = d + n in if 0 < o' \<and> o' \<le> MAXORDINAL then Inr o' else Inl OverflowError)"

text \<open>\<open>date.weekday()\<close>: Monday is 0 and Sunday is 6.\<close>

definition weekday :: "date \<Rightarrow> int" where
  "weekday d = (d + 6) mod 7"

text \<open>\<open>_ord2ymd\<close>, used through the attributes \<open>month\<close>, \<open>day\<close> and by \<open>strftime\<close>.\<close>

definition ord2ymd :: "int \<Rightarrow> int \<times> int \<times> int" where
  "ord2ymd n0 =
     (let n = n0 - 1;
          n400 = n div 146097; n = n mod 146097;
          n100 = n div 36524; n = n mod 36524;
          n4 = n div 1461; n = n mod 1461;
          n1 = n div 365; n = n mod 365;
          year = n400 * 400 + 1 + n100 * 100 + n4 * 4 + n1
      in if n1 = 4 \<or> n100 = 4 then (year - 1, 12, 31)
         else
           (let leapyear = (n1 = 3 \<and> (n4 \<noteq> 24 \<or> n100 = 3));
                month = (n + 50) div 32;
                preceding = DAYS_BEFORE_MONTH ! nat month + (if month > 2 \<and> leapyear then 1 else 0)
            in if preceding > n
               then (let month' = month - 1;
                         preceding' = preceding -
                           (DAYS_IN_MONTH ! nat month' + (if month' = 2 \<and> leapyear then 1 else 0))
                     in (year, month', n - preceding' + 1))
               else (year, month, n - preceding + 1)))"

definition date_month :: "date \<Rightarrow> int" where
  "date_month d = (case ord2ymd d of (y, m, dd) \<Rightarrow> m)"

definition date_day :: "date \<Rightarrow> int" where
  "date_day d = (case ord2ymd d of (y, m, dd) \<Rightarrow> dd)"

text \<open>\<open>calendar.monthrange(year, month)[1]\<close>: the number of days of the month.\<close>

definition mdays :: "int list" where
  "mdays = [0, 31, 28, 31, 30, 31, 30, 31, 31, 30, 31, 30, 31]"

definition isleap :: "int \<Rightarrow> bool" where
  "isleap year = (year mod 4 = 0 \<and> (year mod 100 \<noteq> 0 \<or> year mod 400 = 0))"

definition monthrange_ndays :: "int \<Rightarrow> int \<Rightarrow> error + int" where
  "monthrange_ndays year month =
     (if \<not> (1 \<le> month \<and> month \<le> 12) then Inl IllegalMonthError
      else Inr (mdays ! nat month + (if month = 2 \<and> isleap year then 1 else 0)))"

subsection \<open>Text helpers (\<open>str\<close>, \<open>strftime\<close>, \<open>isoformat\<close>, \<open>strip\<close>, \<open>lower\<close>, \<open>in\<close>)\<close>

definition digit_char :: "nat \<Rightarrow> char" where
  "digit_char n = char_of (48 + n)"

function show_nat :: "nat \<Rightarrow> string" where
  "show_nat n = (if n < 10 then [digit_char n] else show_nat (n div 10) @ [digit_char (n mod 10)])"
  by pat_completeness auto
termination
  by (relation "measure (\<lambda>n. n)") auto

declare show_nat.simps [simp del]

definition zero_pad :: "nat \<Rightarrow> string \<Rightarrow> string" where
  "zero_pad w s = replicate (w - length s) (CHR ''0'') @ s"

text \<open>\<open>d.strftime('%m%d')\<close> and \<open>d.isoformat()\<close> (also what \<open>str(d)\<close> and an f-string give).\<close>

definition strftime_md :: "date \<Rightarrow> string" where
  "strftime_md d =
     (case ord2ymd d of (y, m, dd) \<Rightarrow>
        zero_pad 2 (show_nat (nat m)) @ zero_pad 2 (show_nat (nat dd)))"

definition isoformat :: "date \<Rightarrow> string" where
  "isoformat d =
     (case ord2ymd d of (y, m, dd) \<Rightarrow>
        zero_pad 4 (show_nat (nat y)) @ ''-'' @ zero_pad 2 (show_nat (nat m)) @ ''-''
          @ zero_pad 2 (show_nat (nat dd)))"

text \<open>
  Strings are byte strings here; \<open>lower\<close> and \<open>strip\<close> are modelled on ASCII (letters A-Z,
  and the ASCII white space 9-13, 28-32), which is what the status tokens consist of.
\<close>

definition is_space :: "char \<Rightarrow> bool" where
  "is_space c = (let n = (of_char c :: nat) in (9 \<le> n \<and> n \<le> 13) \<or> (28 \<le> n \<and> n \<le> 32))"

definition lower_char :: "char \<Rightarrow> char" where
  "lower_char c = (let n = (of_char c :: nat) in if 65 \<le> n \<and> n \<le> 90 then char_of (n + 32) else c)"

definition lower :: "string \<Rightarrow> string" where
  "lower s = map lower_char s"

definition strip :: "string \<Rightarrow> string" where
  "strip s = rev (dropWhile is_space (rev (dropWhile is_space s)))"

text \<open>\<open>key in text\<close> on strings: \<open>key\<close> occurs as a contiguous substring of \<open>text\<close>.\<close>

fun starts_with :: "string \<Rightarrow> string \<Rightarrow> bool" where
  "starts_with [] text = True"
| "starts_with (k # ks) [] = False"
| "starts_with (k # ks) (c # cs) = (k = c \<and> starts_with ks cs)"

fun contains :: "string \<Rightarrow> string \<Rightarrow> bool" where
  "contains key [] = (key = [])"
| "contains key (c # cs) = (starts_with key (c # cs) \<or> contains key cs)"

subsection \<open>Data model (\<open>config/parks.py\<close>, \<open>database/models.py\<close>)\<close>

datatype park = JOSHUA_TREE | CARLSBAD | OCEANSIDE

fun park_value :: "park \<Rightarrow> string" where
  "park_value JOSHUA_TREE = ''joshua_tree''"
| "park_value CARLSBAD = ''carlsbad''"
| "park_value OCEANSIDE = ''oceanside''"

datatype site_type = TENT | RV | CABIN | GROUP | DAY_USE

datatype availability_status = AVAILABLE | BOOKED | CLOSED | MAINTENANCE | UNKNOWN

datatype notification_status = PENDING | SENT | FAILED | SKIPPED

text \<open>
  Prices are Python floats. The model uses exact rationals: the code only compares
  prices, tests them for truth (a float is false exactly when it is zero) and, in the
  calendar, averages them; rounding of the average is not modelled.
  Time stamps (\<open>datetime.utcnow()\<close>) are opaque integers.
  Where two classes use the same field name, the fields of the second carry a prefix
  (\<open>kw_\<close>, \<open>nr_\<close>, \<open>q_\<close>, \<open>cm_\<close>, \<open>cd_\<close>); the field \<open>id\<close> of a rule is \<open>rule_id\<close>.
\<close>

type_synonym datetime = int

record campsite_availability =
  park :: park
  site_id :: string
  site_name :: string
  site_type :: site_type
  check_in_date :: date
  status :: availability_status
  price :: "rat option"
  max_occupancy :: "int option"
  amenities :: "string list"
  scraped_at :: datetime
  url :: "string option"

text \<open>
  The keyword arguments of a call \<open>CampsiteAvailability(...)\<close>. Besides the declared
  fields the direct scraper passes \<open>check_out_date\<close> and \<open>booking_url\<close>, which the
  model class does not declare. The class sets no \<open>extra\<close> policy, and pydantic's
  default is to ignore undeclared keywords, so the constructor below never reads them.
\<close>

record availability_kwargs =
  kw_park :: park
  kw_site_id :: string
  kw_site_name :: string
  kw_site_type :: site_type
  kw_check_in_date :: date
  kw_status :: availability_status
  kw_price :: "rat option"
  kw_max_occupancy :: "int option"
  kw_amenities :: "string list"
  kw_scraped_at :: datetime
  kw_url :: "string option"
  kw_check_out_date :: "date option"
  kw_booking_url :: "string option"

definition validate_future_date :: "date \<Rightarrow> date \<Rightarrow> error + date" where
  "validate_future_date today v =
     (if v < today then Inl (ValueError ''Check-in date must be today or in the future'') else Inr v)"

definition validate_not_empty :: "string \<Rightarrow> error + string" where
  "validate_not_empty v =
     (if v = [] \<or> strip v = [] then Inl (ValueError ''Field cannot be empty'') else Inr (strip v))"

definition new_CampsiteAvailability :: "date \<Rightarrow> availability_kwargs \<Rightarrow> error + campsite_availability" where
  "new_CampsiteAvailability today kw =
     (case (validate_not_empty (kw_site_id kw), validate_not_empty (kw_site_name kw),
            validate_future_date today (kw_check_in_date kw)) of
        (Inr sid, Inr sname, Inr cin) \<Rightarrow>
          if (case kw_price kw of None \<Rightarrow> True | Some p \<Rightarrow> 0 \<le> p) \<and>
             (case kw_max_occupancy kw of None \<Rightarrow> True | Some n \<Rightarrow> 1 \<le> n \<and> n \<le> 50)
          then Inr \<lparr> park = kw_park kw, site_id = sid, site_name = sname,
                     site_type = kw_site_type kw, check_in_date = cin, status = kw_status kw,
                     price = kw_price kw, max_occupancy = kw_max_occupancy kw,
                     amenities = kw_amenities kw, scraped_at = kw_scraped_at kw,
                     url = kw_url kw \<rparr>
          else Inl ValidationError
      | _ \<Rightarrow> Inl ValidationError)"

record alert_rule =
  rule_id :: "string option"
  user_email :: string
  parks :: "park list"
  site_types :: "site_type list"
  weekend_only :: bool
  min_nights :: int
  max_price :: "rat option"
  advance_notice_days :: int
  created_at :: datetime
  updated_at :: datetime
  is_active :: bool

record notification_record =
  nr_id :: "string option"
  nr_alert_rule_id :: string
  nr_campsite_availability_key :: string
  nr_recipient_email :: string
  nr_park :: park
  nr_site_id :: string
  nr_check_in_date :: date
  nr_status :: notification_status
  nr_sent_at :: "datetime option"
  nr_error_message :: "string option"
  nr_retry_count :: int
  nr_created_at :: datetime

subsection \<open>Campsite search query (\<open>CampsiteSearchQuery\<close>)\<close>

record campsite_search_query =
  q_parks :: "park list"
  q_start_date :: date
  q_end_date :: date
  q_site_types :: "site_type list option"
  q_max_price :: "rat option"
  q_min_occupancy :: "int option"
  q_weekend_only :: bool

definition validate_start_date :: "date \<Rightarrow> date \<Rightarrow> error + date" where
  "validate_start_date today v =
     (if v < today then Inl (ValueError ''Start date cannot be in the past'') else Inr v)"

text \<open>
  \<open>values\<close> holds the fields validated so far; \<open>start_date\<close> is missing from it when its
  own validator failed, and then the range check is skipped.
\<close>

definition validate_date_range :: "date option \<Rightarrow> date \<Rightarrow> error + date" where
  "validate_date_range values_start_date v =
     (case values_start_date of
        Some s \<Rightarrow> if v \<le> s then Inl (ValueError ''End date must be after start date'') else Inr v
      | None \<Rightarrow> Inr v)"

definition new_CampsiteSearchQuery ::
  "date \<Rightarrow> park list \<Rightarrow> date \<Rightarrow> date \<Rightarrow> site_type list option \<Rightarrow> rat option \<Rightarrow> int option \<Rightarrow> bool
     \<Rightarrow> error + campsite_search_query" where
  "new_CampsiteSearchQuery today ps sd ed sts mp mo wo =
     (let start_v = validate_start_date today sd;
          values_start_date = (case start_v of Inr s \<Rightarrow> Some s | Inl e \<Rightarrow> None);
          end_v = validate_date_range values_start_date ed
      in case (start_v, end_v) of
           (Inr s, Inr e) \<Rightarrow>
             if ps \<noteq> [] \<and> (case mp of None \<Rightarrow> True | Some p \<Rightarrow> 0 \<le> p) \<and>
                (case mo of None \<Rightarrow> True | Some n \<Rightarrow> 1 \<le> n)
             then Inr \<lparr> q_parks = ps, q_start_date = s, q_end_date = e, q_site_types = sts,
                        q_max_price = mp, q_min_occupancy = mo, q_weekend_only = wo \<rparr>
             else Inl ValidationError
         | _ \<Rightarrow> Inl ValidationError)"

text \<open>
  \<open>get_date_range\<close>: the \<open>while\<close> loop, with \<open>current\<close> and the list built so far as
  loop state. The step \<open>date.fromordinal(current.toordinal() + 1)\<close> can raise.
\<close>

function date_range_loop :: "date \<Rightarrow> bool \<Rightarrow> date \<Rightarrow> date list \<Rightarrow> error + date list" where
  "date_range_loop end_d wo current dates =
     (if current \<le> end_d then
        (let dates' = (if \<not> wo \<or> weekday current \<ge> 5 then dates @ [current] else dates)
         in case fromordinal (current + 1) of
              Inl e \<Rightarrow> Inl e
            | Inr current' \<Rightarrow> date_range_loop end_d wo current' dates')
      else Inr dates)"
  by pat_completeness auto
termination
  by (relation "measure (\<lambda>(end_d, wo, current, dates). nat (end_d + 1 - current))")
     (auto simp: fromordinal_def split: if_splits)

declare date_range_loop.simps [simp del]

definition get_date_range :: "campsite_search_query \<Rightarrow> error + date list" where
  "get_date_range q = date_range_loop (q_end_date q) (q_weekend_only q) (q_start_date q) []"


subsection \<open>Status normalisation of the content parser (\<open>scraper/reservation_parser.py\<close>)\<close>

text \<open>
  \<open>status_mapping\<close> is a dict literal; iterating \<open>.items()\<close> visits the entries in the
  order in which they are written, so it is an association list here.
\<close>

definition status_mapping :: "(string \<times> availability_status) list" where
  "status_mapping =
     [(''available'', AVAILABLE), (''open'', AVAILABLE), (''a'', AVAILABLE),
      (''booked'', BOOKED), (''reserved'', BOOKED), (''r'', BOOKED),
      (''closed'', CLOSED), (''c'', CLOSED),
      (''maintenance'', MAINTENANCE), (''m'', MAINTENANCE),
      (''unavailable'', BOOKED), (''na'', BOOKED)]"

text \<open>The \<open>for key, enum_value in ...items()\<close> loop: the first entry that matches returns.\<close>

fun first_status_match :: "(string \<times> availability_status) list \<Rightarrow> string \<Rightarrow> availability_status" where
  "first_status_match [] status_str = UNKNOWN"
| "first_status_match ((key, enum_value) # rest) status_str =
     (if key = status_str \<or> contains key status_str then enum_value
      else first_status_match rest status_str)"

text \<open>
  \<open>_normalize_status\<close> on a text argument (the callers pass cell text or a JSON value
  turned into text by \<open>str\<close>); \<open>not status_raw\<close> holds for the empty text.
\<close>

definition normalize_status :: "string \<Rightarrow> availability_status" where
  "normalize_status status_raw =
     (if status_raw = [] then UNKNOWN
      else first_status_match status_mapping (strip (lower status_raw)))"

subsection \<open>Rate limiter (\<open>scraper/rate_limiter.py\<close>)\<close>








subsection \<open>Direct fallback scraper (\<open>scraper/direct_scraper.py\<close>)\<close>

text \<open>
  The keyword arguments that each branch of \<open>scrape_park_availability\<close> passes to
  \<open>CampsiteAvailability\<close> for the loop date \<open>d\<close>. Evaluating
  \<open>current_date + timedelta(days=1)\<close> for \<open>check_out_date\<close> can raise. \<open>clock d\<close> is the
  value of \<open>datetime.utcnow()\<close> read in the iteration for \<open>d\<close>. No branch passes \<open>url\<close>.
\<close>

definition booking_page :: string where
  "booking_page = ''https://www.reservecalifornia.com/Web/Facilities/AdvanceSearch.aspx''"

definition carlsbad_kwargs :: "(date \<Rightarrow> datetime) \<Rightarrow> date \<Rightarrow> error + availability_kwargs" where
  "carlsbad_kwargs clock d =
     (case add_days d 1 of
        Inl e \<Rightarrow> Inl e
      | Inr check_out \<Rightarrow>
          Inr \<lparr> kw_park = CARLSBAD,
                kw_site_id = ''CARL-'' @ strftime_md d @ ''-47'',
                kw_site_name = ''Beachfront Site #'' @ show_nat (nat (47 + date_day d mod 20)),
                kw_site_type = RV,
                kw_check_in_date = d,
                kw_status = AVAILABLE,
                kw_price = Some (if weekday d \<ge> 5 then 65 else 55),
                kw_max_occupancy = Some 6,
                kw_amenities = [''Full Hookups'', ''Beach Access'', ''Fire Ring''],
                kw_scraped_at = clock d,
                kw_url = None,
                kw_check_out_date = Some check_out,
                kw_booking_url = Some booking_page \<rparr>)"

definition joshua_tree_kwargs :: "(date \<Rightarrow> datetime) \<Rightarrow> date \<Rightarrow> error + availability_kwargs" where
  "joshua_tree_kwargs clock d =
     (case add_days d 1 of
        Inl e \<Rightarrow> Inl e
      | Inr check_out \<Rightarrow>
          Inr \<lparr> kw_park = JOSHUA_TREE,
                kw_site_id = ''JOSH-'' @ strftime_md d @ ''-15'',
                kw_site_name = ''Jumbo Rocks Site #'' @ show_nat (nat (15 + date_day d mod 30)),
                kw_site_type = TENT,
                kw_check_in_date = d,
                kw_status = AVAILABLE,
                kw_price = Some 35,
                kw_max_occupancy = Some 4,
                kw_amenities = [''Fire Ring'', ''Picnic Table'', ''Desert Views''],
                kw_scraped_at = clock d,
                kw_url = None,
                kw_check_out_date = Some check_out,
                kw_booking_url = Some booking_page \<rparr>)"

definition oceanside_kwargs :: "(date \<Rightarrow> datetime) \<Rightarrow> date \<Rightarrow> error + availability_kwargs" where
  "oceanside_kwargs clock d =
     (case add_days d 1 of
        Inl e \<Rightarrow> Inl e
      | Inr check_out \<Rightarrow>
          Inr \<lparr> kw_park = OCEANSIDE,
                kw_site_id = ''OCEAN-'' @ strftime_md d @ ''-22'',
                kw_site_name = ''San Elijo Site #'' @ show_nat (nat (22 + date_day d mod 15)),
                kw_site_type = RV,
                kw_check_in_date = d,
                kw_status = AVAILABLE,
                kw_price = Some 45,
                kw_max_occupancy = Some 5,
                kw_amenities = [''Partial Hookups'', ''Beach Access'', ''Restrooms''],
                kw_scraped_at = clock d,
                kw_url = None,
                kw_check_out_date = Some check_out,
                kw_booking_url = Some booking_page \<rparr>)"

text \<open>
  The three \<open>while current_date <= end_date\<close> loops have the same shape and differ in
  the weekdays that get a record and in the keyword arguments; \<open>sample_loop\<close> is that
  shape, with the list built so far as accumulator. A record is appended only after
  its construction has passed validation; any exception ends the loop.
\<close>

function sample_loop ::
  "date \<Rightarrow> (date \<Rightarrow> error + availability_kwargs) \<Rightarrow> int list \<Rightarrow> date \<Rightarrow> date
     \<Rightarrow> campsite_availability list \<Rightarrow> error + campsite_availability list" where
  "sample_loop today mk weekdays end_date current_date availability =
     (if current_date \<le> end_date then
        (case (if weekday current_date \<in> set weekdays
               then (case mk current_date of
                       Inl e \<Rightarrow> Inl e
                     | Inr kw \<Rightarrow>
                         (case new_CampsiteAvailability today kw of
                            Inl e \<Rightarrow> Inl e
                          | Inr a \<Rightarrow> Inr (availability @ [a])))
               else Inr availability) of
           Inl e \<Rightarrow> Inl e
         | Inr availability' \<Rightarrow>
             (case add_days current_date 1 of
                Inl e \<Rightarrow> Inl e
              | Inr next_date \<Rightarrow> sample_loop today mk weekdays end_date next_date availability'))
      else Inr availability)"
  by pat_completeness auto
termination
  by (relation "measure (\<lambda>(today, mk, weekdays, end_date, current_date, availability).
                   nat (end_date + 1 - current_date))")
     (auto simp: add_days_def Let_def split: if_splits)

declare sample_loop.simps [simp del]

definition scrape_park_availability ::
  "(date \<Rightarrow> datetime) \<Rightarrow> date \<Rightarrow> park \<Rightarrow> date \<times> date \<Rightarrow> error + campsite_availability list" where
  "scrape_park_availability clock today p date_range =
     (case date_range of (start_date, end_date) \<Rightarrow>
        (case p of
           CARLSBAD \<Rightarrow> sample_loop today (carlsbad_kwargs clock) [0, 1, 4] end_date start_date []
         | JOSHUA_TREE \<Rightarrow> sample_loop today (joshua_tree_kwargs clock) [2, 3, 6] end_date start_date []
         | OCEANSIDE \<Rightarrow> sample_loop today (oceanside_kwargs clock) [1, 5] end_date start_date []))"

subsection \<open>Data store client (\<open>database/supabase_client.py\<close>)\<close>

fun site_type_value :: "site_type \<Rightarrow> string" where
  "site_type_value TENT = ''tent''"
| "site_type_value RV = ''rv''"
| "site_type_value CABIN = ''cabin''"
| "site_type_value GROUP = ''group''"
| "site_type_value DAY_USE = ''day_use''"

fun status_value :: "availability_status \<Rightarrow> string" where
  "status_value AVAILABLE = ''available''"
| "status_value BOOKED = ''booked''"
| "status_value CLOSED = ''closed''"
| "status_value MAINTENANCE = ''maintenance''"
| "status_value UNKNOWN = ''unknown''"

text \<open>
  Every model class sets \<open>use_enum_values = True\<close> in its \<open>Config\<close>. With that setting
  pydantic stores in an enum-typed field the value of the member, here a plain \<open>str\<close>,
  not the member. Comparisons with members still work (the enums derive from \<open>str\<close>),
  but a \<open>str\<close> has no attribute \<open>value\<close>: \<open>field_dot_value v\<close> is the expression
  \<open>obj.field.value\<close> for a field whose stored text is \<open>v\<close>.
\<close>

definition use_enum_values :: bool where
  "use_enum_values = True"

definition field_dot_value :: "string \<Rightarrow> error + string" where
  "field_dot_value v = (if use_enum_values then Inl AttributeError else Inr v)"

text \<open>\<open>str(e)\<close> for the exceptions of the model.\<close>

fun str_of_error :: "error \<Rightarrow> string" where
  "str_of_error (ValueError m) = m"
| "str_of_error (SupabaseError m) = m"
| "str_of_error AttributeError = [CHR 0x27] @ ''str'' @ [CHR 0x27] @ '' object has no attribute ''
                                   @ [CHR 0x27] @ ''value'' @ [CHR 0x27]"
| "str_of_error OverflowError = ''date value out of range''"
| "str_of_error IllegalMonthError = ''bad month number''"
| "str_of_error ValidationError = ''validation error''"
| "str_of_error ZeroDivisionError = ''division by zero''"
| "str_of_error KeyError = ''missing key''"

text \<open>The dict built for one availability record, and the parameters of an insert call.\<close>

record availability_row =
  ar_id :: string
  ar_park :: string
  ar_site_id :: string
  ar_site_name :: string
  ar_site_type :: string
  ar_check_in_date :: string
  ar_status :: string
  ar_price :: "rat option"
  ar_max_occupancy :: "int option"
  ar_amenities :: "string list"
  ar_scraped_at :: datetime
  ar_url :: "string option"
  ar_created_at :: datetime
  ar_updated_at :: datetime

record insert_params =
  ip_table :: string
  ip_data :: "availability_row list"
  ip_on_conflict :: "string option"
  ip_conflict_columns :: "string list"

text \<open>
  A stored row as a query returns it, classified by what converting its columns does
  in \<open>get_availability_by_park\<close> (\<open>ParkEnum(...)\<close>, \<open>AvailabilityStatus(...)\<close>,
  \<open>fromisoformat(...)\<close>): the keyword arguments obtained, a ValueError (unknown enum
  text, malformed date), or another exception (a missing column is a KeyError).
\<close>

datatype db_row = Row availability_kwargs | RowValueError | RowOtherError

text \<open>The response dict of a tool call; an absent \<open>success\<close> key counts as false.\<close>

record mcp_result =
  r_success :: bool
  r_error :: "string option"
  r_data :: "db_row list"

text \<open>
  The two functions that reach the store, \<open>_insert_rows_direct\<close> and
  \<open>_execute_query_direct\<close>. In this build they are simulated (\<open>simulated_backend\<close>);
  the operations are modelled for any behaviour of these two functions.
\<close>

record backend =
  insert_rows_direct :: "insert_params \<Rightarrow> error + mcp_result"
  execute_query_direct :: "string \<Rightarrow> error + mcp_result"

definition simulated_backend :: backend where
  "simulated_backend =
     \<lparr> insert_rows_direct = (\<lambda>parameters. Inr \<lparr> r_success = True, r_error = None, r_data = [] \<rparr>),
       execute_query_direct = (\<lambda>query. Inr \<lparr> r_success = True, r_error = None, r_data = [] \<rparr>) \<rparr>"

text \<open>\<open>_call_mcp_tool\<close>, for each of the two tool names the callers use.\<close>

definition call_insert_rows :: "backend \<Rightarrow> insert_params \<Rightarrow> error + mcp_result" where
  "call_insert_rows b parameters =
     (case insert_rows_direct b parameters of
        Inl e \<Rightarrow> Inl (SupabaseError (''MCP tool call failed: '' @ str_of_error e))
      | Inr r \<Rightarrow> Inr r)"

definition execute_query :: "backend \<Rightarrow> string \<Rightarrow> error + mcp_result" where
  "execute_query b query =
     (case execute_query_direct b query of
        Inl e \<Rightarrow> Inl (SupabaseError (''MCP tool call failed: '' @ str_of_error e))
      | Inr r \<Rightarrow> Inr r)"

text \<open>\<open>[xs[i:i + n] for i in range(0, len(xs), n)]\<close>, for \<open>n > 0\<close>.\<close>

definition slices :: "nat \<Rightarrow> 'a list \<Rightarrow> 'a list list" where
  "slices n xs = map (\<lambda>k. take n (drop (k * n) xs)) [0 ..< (length xs + n - 1) div n]"

text \<open>
  The dict comprehension of \<open>store_availability_data\<close> for the record at position \<open>i\<close>.
  \<open>uuid i\<close> is the text of the \<open>uuid4()\<close> drawn for it and \<open>now\<close> is \<open>datetime.utcnow()\<close>.
  The entries are evaluated in the order written, so the first \<open>.value\<close> decides.
\<close>

definition availability_record ::
  "(nat \<Rightarrow> string) \<Rightarrow> datetime \<Rightarrow> nat \<Rightarrow> campsite_availability \<Rightarrow> error + availability_row" where
  "availability_record uuid now i avail =
     (case field_dot_value (park_value (park avail)) of
        Inl e \<Rightarrow> Inl e
      | Inr park_text \<Rightarrow>
     (case field_dot_value (site_type_value (site_type avail)) of
        Inl e \<Rightarrow> Inl e
      | Inr site_type_text \<Rightarrow>
     (case field_dot_value (status_value (status avail)) of
        Inl e \<Rightarrow> Inl e
      | Inr status_text \<Rightarrow>
          Inr \<lparr> ar_id = uuid i, ar_park = park_text, ar_site_id = site_id avail,
                ar_site_name = site_name avail, ar_site_type = site_type_text,
                ar_check_in_date = isoformat (check_in_date avail), ar_status = status_text,
                ar_price = price avail, ar_max_occupancy = max_occupancy avail,
                ar_amenities = amenities avail, ar_scraped_at = scraped_at avail,
                ar_url = url avail, ar_created_at = now, ar_updated_at = now \<rparr>)))"

fun availability_records ::
  "(nat \<Rightarrow> string) \<Rightarrow> datetime \<Rightarrow> nat \<Rightarrow> campsite_availability list \<Rightarrow> error + availability_row list" where
  "availability_records uuid now i [] = Inr []"
| "availability_records uuid now i (avail # rest) =
     (case availability_record uuid now i avail of
        Inl e \<Rightarrow> Inl e
      | Inr record \<Rightarrow>
          (case availability_records uuid now (Suc i) rest of
             Inl e \<Rightarrow> Inl e
           | Inr records \<Rightarrow> Inr (record # records)))"

definition availability_insert :: "availability_row list \<Rightarrow> insert_params" where
  "availability_insert chunk =
     \<lparr> ip_table = ''campsite_availability'', ip_data = chunk, ip_on_conflict = Some ''update'',
       ip_conflict_columns = [''park'', ''site_id'', ''check_in_date''] \<rparr>"

text \<open>
  The loop over the chunks. The second component is the list of insert calls made, in
  order; the loop stops at the first call that raises or reports failure.
\<close>

fun insert_batches :: "backend \<Rightarrow> availability_row list list \<Rightarrow> (error + unit) \<times> insert_params list" where
  "insert_batches b [] = (Inr (), [])"
| "insert_batches b (chunk # rest) =
     (case call_insert_rows b (availability_insert chunk) of
        Inl e \<Rightarrow> (Inl e, [availability_insert chunk])
      | Inr result \<Rightarrow>
          if \<not> r_success result
          then (Inl (SupabaseError (''Failed to insert availability batch: '' @
                       (case r_error result of None \<Rightarrow> ''None'' | Some m \<Rightarrow> m))),
                [availability_insert chunk])
          else (case insert_batches b rest of
                  (outcome, calls) \<Rightarrow> (outcome, availability_insert chunk # calls)))"

text \<open>
  \<open>store_availability_data\<close>: the value returned or the exception raised, and the insert
  calls made. Whatever is raised inside the \<open>try\<close> is re-raised as \<open>SupabaseError\<close>.
\<close>

definition store_availability_data ::
  "backend \<Rightarrow> (nat \<Rightarrow> string) \<Rightarrow> datetime \<Rightarrow> campsite_availability list
     \<Rightarrow> (error + bool) \<times> insert_params list" where
  "store_availability_data b uuid now availability =
     (if availability = [] then (Inr True, [])
      else
        (case availability_records uuid now 0 availability of
           Inl e \<Rightarrow> (Inl (SupabaseError (''Storage failed: '' @ str_of_error e)), [])
         | Inr records \<Rightarrow>
             (case insert_batches b (slices 1000 records) of
                (Inl e, calls) \<Rightarrow> (Inl (SupabaseError (''Storage failed: '' @ str_of_error e)), calls)
              | (Inr u, calls) \<Rightarrow> (Inr True, calls))))"

text \<open>
  \<open>get_availability_by_park\<close>. The query text is built as in the source (the table
  name is \<open>campsite_availability\<close>); a \<open>date\<close> argument is true whenever it is given.
\<close>

definition join_with :: "string \<Rightarrow> string list \<Rightarrow> string" where
  "join_with sep xs = (case xs of [] \<Rightarrow> [] | y # ys \<Rightarrow> y @ concat (map (\<lambda>z. sep @ z) ys))"

definition quoted :: "string \<Rightarrow> string" where
  "quoted v = [CHR 0x27] @ v @ [CHR 0x27]"

definition availability_query ::
  "park \<Rightarrow> date option \<Rightarrow> date option \<Rightarrow> availability_status list option \<Rightarrow> string" where
  "availability_query p start_date end_date status_filter =
     (let conditions =
            [''park = '' @ quoted (park_value p)]
            @ (case start_date of None \<Rightarrow> []
               | Some d \<Rightarrow> [''check_in_date >= '' @ quoted (isoformat d)])
            @ (case end_date of None \<Rightarrow> []
               | Some d \<Rightarrow> [''check_in_date <= '' @ quoted (isoformat d)])
            @ (case status_filter of None \<Rightarrow> [] | Some [] \<Rightarrow> []
               | Some sts \<Rightarrow> [''status IN ('' @ join_with '','' (map (\<lambda>st. quoted (status_value st)) sts) @ '')'']);
          where_clause = join_with '' AND '' conditions;
          nl = CHR 0x0A # replicate 12 (CHR '' '')
      in nl @ ''SELECT * FROM campsite_availability'' @ nl @ ''WHERE '' @ where_clause
           @ nl @ ''ORDER BY check_in_date, site_id'' @ nl)"

text \<open>
  The loop over the rows: a row whose conversion or validation raises ValueError or
  ValidationError is skipped; any other exception leaves the loop.
\<close>

fun rows_to_availability ::
  "date \<Rightarrow> db_row list \<Rightarrow> campsite_availability list \<Rightarrow> error + campsite_availability list" where
  "rows_to_availability today [] availability_list = Inr availability_list"
| "rows_to_availability today (Row kw # rest) availability_list =
     (case new_CampsiteAvailability today kw of
        Inl e \<Rightarrow> rows_to_availability today rest availability_list
      | Inr availability \<Rightarrow> rows_to_availability today rest (availability_list @ [availability]))"
| "rows_to_availability today (RowValueError # rest) availability_list =
     rows_to_availability today rest availability_list"
| "rows_to_availability today (RowOtherError # rest) availability_list = Inl KeyError"

definition get_availability_by_park_body ::
  "backend \<Rightarrow> date \<Rightarrow> park \<Rightarrow> date option \<Rightarrow> date option \<Rightarrow> availability_status list option
     \<Rightarrow> error + campsite_availability list" where
  "get_availability_by_park_body b today p start_date end_date status_filter =
     (case execute_query b (availability_query p start_date end_date status_filter) of
        Inl e \<Rightarrow> Inl e
      | Inr result \<Rightarrow>
          if \<not> r_success result
          then Inl (SupabaseError (''Query failed: '' @
                      (case r_error result of None \<Rightarrow> ''None'' | Some m \<Rightarrow> m)))
          else rows_to_availability today (r_data result) [])"

text \<open>The \<open>except Exception\<close> of \<open>get_availability_by_park\<close> turns every exception into \<open>[]\<close>.\<close>

definition get_availability_by_park ::
  "backend \<Rightarrow> date \<Rightarrow> park \<Rightarrow> date option \<Rightarrow> date option \<Rightarrow> availability_status list option
     \<Rightarrow> campsite_availability list" where
  "get_availability_by_park b today p start_date end_date status_filter =
     (case get_availability_by_park_body b today p start_date end_date status_filter of
        Inl e \<Rightarrow> []
      | Inr availability_list \<Rightarrow> availability_list)"

subsection \<open>Calendar dashboard (\<open>dashboard/calendar_view.py\<close>)\<close>

record calendar_day_data =
  cd_date :: date
  available_count :: int
  total_sites :: int
  weekend :: bool
  sites :: "campsite_availability list"
  avg_price :: "rat option"
  min_price :: "rat option"

record calendar_month_data =
  cm_year :: int
  cm_month :: int
  month_name :: string
  days :: "calendar_day_data list"
  cm_parks :: "string list"
  total_available :: int
  weekend_available :: int

text \<open>
  \<open>get_availability_data\<close>: the store's read operation cannot raise, so the \<open>except\<close>
  branch of this method is never taken; the site-type filter applies to a non-empty
  \<open>site_types\<close> only.
\<close>

definition get_availability_data ::
  "backend \<Rightarrow> date \<Rightarrow> park \<Rightarrow> date \<Rightarrow> date \<Rightarrow> site_type list option \<Rightarrow> campsite_availability list" where
  "get_availability_data b today p start_date end_date site_type_filter =
     (let availability = get_availability_by_park b today p (Some start_date) (Some end_date) None
      in case site_type_filter of
           None \<Rightarrow> availability
         | Some [] \<Rightarrow> availability
         | Some sts \<Rightarrow> filter (\<lambda>avail. site_type avail \<in> set sts) availability)"

definition month_names :: "string list" where
  "month_names = [''January'', ''February'', ''March'', ''April'', ''May'', ''June'',
                  ''July'', ''August'', ''September'', ''October'', ''November'', ''December'']"

text \<open>The statistics of one day; a price counts when it is present and not zero.\<close>

definition day_data :: "campsite_availability list \<Rightarrow> date \<Rightarrow> calendar_day_data" where
  "day_data all_availability current_date =
     (let is_weekend = (weekday current_date \<ge> 5);
          day_availability = filter (\<lambda>avail. check_in_date avail = current_date
                                        \<and> status avail = AVAILABLE) all_availability;
          n_available = int (length day_availability);
          n_total = int (length (filter (\<lambda>avail. check_in_date avail = current_date) all_availability));
          prices = concat (map (\<lambda>avail. case price avail of None \<Rightarrow> []
                                  | Some x \<Rightarrow> if x = 0 then [] else [x]) day_availability)
      in \<lparr> cd_date = current_date, available_count = n_available, total_sites = n_total,
            weekend = is_weekend, sites = day_availability,
            avg_price = (if prices = [] then None else Some (sum_list prices / of_nat (length prices))),
            min_price = (if prices = [] then None else Some (Min (set prices))) \<rparr>)"

text \<open>
  The loop \<open>for day in range(1, last_day_num + 1)\<close> over the remaining day numbers, with
  the list of days and the two running totals as state.
\<close>

fun calendar_days_loop ::
  "campsite_availability list \<Rightarrow> int \<Rightarrow> int \<Rightarrow> int list \<Rightarrow> calendar_day_data list \<times> int \<times> int
     \<Rightarrow> error + calendar_day_data list \<times> int \<times> int" where
  "calendar_days_loop all_availability year month [] state = Inr state"
| "calendar_days_loop all_availability year month (day # rest) (calendar_days, total_count, weekend_count) =
     (case new_date year month day of
        Inl e \<Rightarrow> Inl e
      | Inr current_date \<Rightarrow>
          (let d = day_data all_availability current_date
           in calendar_days_loop all_availability year month rest
                (calendar_days @ [d], total_count + available_count d,
                 if weekend d then weekend_count + available_count d else weekend_count)))"

definition generate_calendar_data ::
  "backend \<Rightarrow> date \<Rightarrow> int \<Rightarrow> int \<Rightarrow> park list \<Rightarrow> error + calendar_month_data" where
  "generate_calendar_data b today year month park_list =
     (case new_date year month 1 of
        Inl e \<Rightarrow> Inl e
      | Inr first_day \<Rightarrow>
     (case monthrange_ndays year month of
        Inl e \<Rightarrow> Inl e
      | Inr last_day_num \<Rightarrow>
     (case new_date year month last_day_num of
        Inl e \<Rightarrow> Inl e
      | Inr last_day \<Rightarrow>
          (let all_availability =
                 concat (map (\<lambda>p. get_availability_data b today p first_day last_day None) park_list)
           in case calendar_days_loop all_availability year month [1..last_day_num] ([], 0, 0) of
                Inl e \<Rightarrow> Inl e
              | Inr (calendar_days, total_count, weekend_count) \<Rightarrow>
                  Inr \<lparr> cm_year = year, cm_month = month,
                        month_name = month_names ! nat (month - 1),
                        days = calendar_days,
                        cm_parks = map park_value park_list,
                        total_available = total_count,
                        weekend_available = weekend_count \<rparr>))))"

text \<open>
  The length of a month as the calendar rule states it, to compare with what the
  generator computes: April, June, September and November have 30 days, February has
  29 in a leap year (a multiple of 4 that is not a multiple of 100, or a multiple of
  400) and 28 otherwise, the other months have 31.
\<close>

definition leap_year_rule :: "int \<Rightarrow> bool" where
  "leap_year_rule year = (4 dvd year \<and> (\<not> 100 dvd year \<or> 400 dvd year))"

definition true_month_length :: "int \<Rightarrow> int \<Rightarrow> int" where
  "true_month_length year month =
     (if month \<in> {4, 6, 9, 11} then 30
      else if month = 2 then (if leap_year_rule year then 29 else 28)
      else 31)"

subsection \<open>Email notification service (\<open>notifications/email_alerts.py\<close>)\<close>

text \<open>
  What the alert processor calls through its two collaborators. The methods of the
  data store client used here (\<open>get_active_alert_rules\<close>, \<open>check_notification_sent\<close>,
  \<open>record_notification\<close>) catch every exception and return a value, so each is a
  function here. \<open>send_email_ok n\<close> tells whether the \<open>n\<close>-th call of \<open>_send_email\<close> on
  the service (counted from 0) delivers; \<open>_send_email\<close> catches its exceptions too.
\<close>

record services =
  get_active_alert_rules :: "alert_rule list"
  alert_cooldown_hours :: int
  check_notification_sent :: "park \<Rightarrow> string \<Rightarrow> date \<Rightarrow> int \<Rightarrow> bool"
  record_notification :: "notification_record \<Rightarrow> bool"
  send_email_ok :: "nat \<Rightarrow> bool"
  utcnow :: datetime
  utcnow_date :: date

record email_service =
  stat_sent :: nat
  stat_failed :: nat
  stat_retries :: nat

definition new_EmailNotificationService :: email_service where
  "new_EmailNotificationService = \<lparr> stat_sent = 0, stat_failed = 0, stat_retries = 0 \<rparr>"

text \<open>\<open>_send_email\<close>: the outcome and the delivery counters.\<close>

definition send_email :: "services \<Rightarrow> email_service \<Rightarrow> email_service \<times> bool" where
  "send_email env svc =
     (if send_email_ok env (stat_sent svc + stat_failed svc)
      then (svc\<lparr> stat_sent := stat_sent svc + 1 \<rparr>, True)
      else (svc\<lparr> stat_failed := stat_failed svc + 1 \<rparr>, False))"

text \<open>The text \<open>f"{site.park}_{site.site_id}_{site.check_in_date}"\<close>.\<close>

definition availability_key :: "campsite_availability \<Rightarrow> string" where
  "availability_key site =
     park_value (park site) @ ''_'' @ site_id site @ ''_'' @ isoformat (check_in_date site)"

text \<open>
  \<open>_create_notification_record\<close>. A rule is an instance of the validated class
  \<open>AlertRule\<close>, so its e-mail text has passed the validator that \<open>NotificationRecord\<close>
  applies again. Without a site the record takes the first park of the rule; for a
  rule without parks the text \<open>unknown\<close> is not a park and the constructor raises.
\<close>

definition create_notification_record ::
  "services \<Rightarrow> alert_rule \<Rightarrow> campsite_availability option \<Rightarrow> notification_status \<Rightarrow> string option
     \<Rightarrow> error + notification_record" where
  "create_notification_record env rule site st error_message =
     (let rid = (case rule_id rule of None \<Rightarrow> ''unknown''
                 | Some i \<Rightarrow> if i = [] then ''unknown'' else i);
          sent_at = (if st = SENT then Some (utcnow env) else None)
      in case site of
           None \<Rightarrow>
             (case parks rule of
                [] \<Rightarrow> Inl ValidationError
              | p # ps \<Rightarrow>
                  Inr \<lparr> nr_id = None, nr_alert_rule_id = rid,
                        nr_campsite_availability_key = ''unknown'',
                        nr_recipient_email = user_email rule, nr_park = p, nr_site_id = ''unknown'',
                        nr_check_in_date = utcnow_date env, nr_status = st, nr_sent_at = sent_at,
                        nr_error_message = error_message, nr_retry_count = 0,
                        nr_created_at = utcnow env \<rparr>)
         | Some s \<Rightarrow>
             Inr \<lparr> nr_id = None, nr_alert_rule_id = rid,
                   nr_campsite_availability_key = availability_key s,
                   nr_recipient_email = user_email rule, nr_park = park s, nr_site_id = site_id s,
                   nr_check_in_date = check_in_date s, nr_status = st, nr_sent_at = sent_at,
                   nr_error_message = error_message, nr_retry_count = 0,
                   nr_created_at = utcnow env \<rparr>)"

text \<open>
  \<open>send_availability_alert\<close>. Rendering the embedded template is taken not to fail, so
  inside the \<open>try\<close> only the outcome of \<open>_send_email\<close> decides the status.
\<close>

definition send_availability_alert ::
  "services \<Rightarrow> email_service \<Rightarrow> alert_rule \<Rightarrow> campsite_availability list
     \<Rightarrow> email_service \<times> (error + notification_record)" where
  "send_availability_alert env svc rule site_list =
     (case site_list of
        [] \<Rightarrow> (svc, create_notification_record env rule None SKIPPED (Some ''No sites to notify about''))
      | first # others \<Rightarrow>
          (case send_email env svc of
             (svc', success) \<Rightarrow>
               (svc', create_notification_record env rule (Some first)
                        (if success then SENT else FAILED) None)))"

subsection \<open>Alert rule processor (\<open>notifications/alert_rules.py\<close>)\<close>

record alert_processor =
  email :: email_service
  processed_notifications :: "string set"
  notification_batch :: "notification_record list"

text \<open>\<open>AlertProcessor.__init__\<close>.\<close>

definition new_AlertProcessor :: alert_processor where
  "new_AlertProcessor =
     \<lparr> email = new_EmailNotificationService, processed_notifications = {}, notification_batch = [] \<rparr>"

definition is_weekend_date :: "date \<Rightarrow> bool" where
  "is_weekend_date check_date = (weekday check_date \<ge> 4)"

text \<open>
  The \<open>for avail in site_availability\<close> loop of \<open>_check_consecutive_nights\<close>, with
  \<open>consecutive_count\<close> and \<open>current_date\<close> as state.
\<close>

fun nights_loop :: "campsite_availability list \<Rightarrow> int \<Rightarrow> date \<Rightarrow> int \<Rightarrow> error + bool" where
  "nights_loop [] consecutive_count current_date min_n = Inr (consecutive_count \<ge> min_n)"
| "nights_loop (avail # rest) consecutive_count current_date min_n =
     (if check_in_date avail = current_date then
        (case add_days current_date 1 of
           Inl e \<Rightarrow> Inl e
         | Inr next_date \<Rightarrow>
             if consecutive_count + 1 \<ge> min_n then Inr True
             else nights_loop rest (consecutive_count + 1) next_date min_n)
      else if check_in_date avail > current_date then Inr (consecutive_count \<ge> min_n)
      else nights_loop rest consecutive_count current_date min_n)"

definition check_consecutive_nights ::
  "campsite_availability \<Rightarrow> campsite_availability list \<Rightarrow> int \<Rightarrow> error + bool" where
  "check_consecutive_nights site all_availability min_n =
     (let site_availability =
            sort_key check_in_date
              (filter (\<lambda>avail. park avail = park site \<and> site_id avail = site_id site
                               \<and> status avail = AVAILABLE) all_availability)
      in nights_loop site_availability 0 (check_in_date site) min_n)"

text \<open>
  \<open>_matches_alert_rule\<close>. In \<open>rule.max_price and site.price and site.price > rule.max_price\<close>
  an \<open>Optional[float]\<close> is tested for truth: it is false for \<open>None\<close> and for \<open>0.0\<close>.
\<close>

definition matches_alert_rule ::
  "date \<Rightarrow> alert_rule \<Rightarrow> campsite_availability \<Rightarrow> campsite_availability list \<Rightarrow> error + bool" where
  "matches_alert_rule today rule site all_availability =
     (if park site \<notin> set (parks rule) then Inr False
      else if site_type site \<notin> set (site_types rule) then Inr False
      else if weekend_only rule \<and> \<not> is_weekend_date (check_in_date site) then Inr False
      else if (case (max_price rule, price site) of
                 (Some limit, Some amount) \<Rightarrow> limit \<noteq> 0 \<and> amount \<noteq> 0 \<and> amount > limit
               | _ \<Rightarrow> False) then Inr False
      else if check_in_date site - today < advance_notice_days rule then Inr False
      else if min_nights rule > 1 then check_consecutive_nights site all_availability (min_nights rule)
      else Inr True)"

text \<open>\<open>find_matching_availability\<close>: the loop over the candidates, \<open>matches\<close> as accumulator.\<close>

fun find_matching_loop ::
  "services \<Rightarrow> date \<Rightarrow> alert_rule \<Rightarrow> campsite_availability list \<Rightarrow> campsite_availability list
     \<Rightarrow> campsite_availability list \<Rightarrow> error + campsite_availability list" where
  "find_matching_loop env today rule all_availability [] matches = Inr matches"
| "find_matching_loop env today rule all_availability (site # rest) matches =
     (if status site \<noteq> AVAILABLE then find_matching_loop env today rule all_availability rest matches
      else if check_notification_sent env (park site) (site_id site) (check_in_date site)
                (alert_cooldown_hours env)
        then find_matching_loop env today rule all_availability rest matches
      else (case matches_alert_rule today rule site all_availability of
              Inl e \<Rightarrow> Inl e
            | Inr ok \<Rightarrow> find_matching_loop env today rule all_availability rest
                         (if ok then matches @ [site] else matches)))"

definition find_matching_availability ::
  "services \<Rightarrow> date \<Rightarrow> alert_rule \<Rightarrow> campsite_availability list \<Rightarrow> error + campsite_availability list" where
  "find_matching_availability env today rule availability =
     find_matching_loop env today rule availability availability []"

text \<open>
  \<open>sites_by_park\<close>: a \<open>defaultdict(list)\<close> filled in one pass; its items come out in the
  order in which the parks were first seen.
\<close>

fun add_site :: "campsite_availability \<Rightarrow> (park \<times> campsite_availability list) list
                   \<Rightarrow> (park \<times> campsite_availability list) list" where
  "add_site site [] = [(park site, [site])]"
| "add_site site ((p, site_list) # rest) =
     (if p = park site then (p, site_list @ [site]) # rest else (p, site_list) # add_site site rest)"

definition sites_by_park :: "campsite_availability list \<Rightarrow> (park \<times> campsite_availability list) list" where
  "sites_by_park matching_sites = foldl (\<lambda>d site. add_site site d) [] matching_sites"

text \<open>
  The inner loop \<open>for chunk in site_chunks\<close> and the outer loop over the parks, with the
  processor and \<open>notifications_sent\<close> as state. An exception leaves the loops with the
  processor as it is at that moment (\<open>Inl\<close>).
\<close>

fun send_chunks ::
  "services \<Rightarrow> alert_rule \<Rightarrow> campsite_availability list list \<Rightarrow> alert_processor \<times> nat
     \<Rightarrow> alert_processor + alert_processor \<times> nat" where
  "send_chunks env rule [] state = Inr state"
| "send_chunks env rule (chunk # rest) (proc, notifications_sent) =
     (case send_availability_alert env (email proc) rule chunk of
        (svc, Inl e) \<Rightarrow> Inl (proc\<lparr> email := svc \<rparr>)
      | (svc, Inr notification_record) \<Rightarrow>
          (let proc1 = proc\<lparr> email := svc,
                             notification_batch := notification_batch proc @ [notification_record] \<rparr>
           in if nr_status notification_record = SENT
              then send_chunks env rule rest
                     (proc1\<lparr> processed_notifications :=
                               processed_notifications proc1 \<union> set (map availability_key chunk) \<rparr>,
                      notifications_sent + 1)
              else send_chunks env rule rest (proc1, notifications_sent)))"

fun send_parks ::
  "services \<Rightarrow> alert_rule \<Rightarrow> (park \<times> campsite_availability list) list \<Rightarrow> alert_processor \<times> nat
     \<Rightarrow> alert_processor + alert_processor \<times> nat" where
  "send_parks env rule [] state = Inr state"
| "send_parks env rule ((p, site_list) # rest) state =
     (case send_chunks env rule (slices 10 site_list) state of
        Inl proc \<Rightarrow> Inl proc
      | Inr state' \<Rightarrow> send_parks env rule rest state')"

definition send_alert_notification ::
  "services \<Rightarrow> alert_rule \<Rightarrow> campsite_availability list \<Rightarrow> alert_processor \<Rightarrow> alert_processor \<times> bool" where
  "send_alert_notification env rule matching_sites proc =
     (case send_parks env rule (sites_by_park matching_sites) (proc, 0) of
        Inl proc' \<Rightarrow> (proc', False)
      | Inr (proc', notifications_sent) \<Rightarrow> (proc', notifications_sent > 0))"

text \<open>
  \<open>_store_notification_batch\<close>: every buffered record is passed to the store, then the
  buffer is cleared. The records passed are the second component.
\<close>

definition store_notification_batch :: "services \<Rightarrow> alert_processor \<Rightarrow> alert_processor \<times> notification_record list" where
  "store_notification_batch env proc = (proc\<lparr> notification_batch := [] \<rparr>, notification_batch proc)"

text \<open>The statistics dict; the early return for an empty input has only three keys.\<close>

record processing_stats =
  notifications_sent :: nat
  rules_processed :: nat
  errors :: "string list"
  availability_processed :: "nat option"
  weekend_sites_found :: "nat option"
  rules_matched :: "nat option"

text \<open>The loop \<open>for rule in alert_rules\<close> with its \<open>try\<close>/\<open>except\<close> around each rule.\<close>

fun process_rules ::
  "services \<Rightarrow> date \<Rightarrow> campsite_availability list \<Rightarrow> alert_rule list
     \<Rightarrow> alert_processor \<times> processing_stats \<Rightarrow> alert_processor \<times> processing_stats" where
  "process_rules env today availability [] state = state"
| "process_rules env today availability (rule # rest) (proc, stats) =
     (case find_matching_availability env today rule availability of
        Inl e \<Rightarrow>
          process_rules env today availability rest
            (proc, stats\<lparr> errors := errors stats @
                     [''Error processing rule '' @ (case rule_id rule of None \<Rightarrow> ''None'' | Some i \<Rightarrow> i)
                        @ '': '' @ str_of_error e] \<rparr>)
      | Inr matches \<Rightarrow>
          if matches = [] then process_rules env today availability rest (proc, stats)
          else
            (case send_alert_notification env rule matches proc of
               (proc', notification_sent) \<Rightarrow>
                 process_rules env today availability rest
                   (proc',
                    stats\<lparr> rules_matched := map_option (\<lambda>n. n + 1) (rules_matched stats),
                           notifications_sent :=
                             (if notification_sent then notifications_sent stats + 1
                              else notifications_sent stats) \<rparr>)))"

text \<open>
  \<open>process_new_availability\<close> on a processor: the processor afterwards, the statistics
  returned, and the notification records passed to the store.
\<close>

definition process_new_availability ::
  "services \<Rightarrow> date \<Rightarrow> alert_processor \<Rightarrow> campsite_availability list
     \<Rightarrow> alert_processor \<times> processing_stats \<times> notification_record list" where
  "process_new_availability env today proc availability =
     (if availability = [] then
        (proc, \<lparr> notifications_sent = 0, rules_processed = 0, errors = [],
                 availability_processed = None, weekend_sites_found = None, rules_matched = None \<rparr>, [])
      else
        (let stats = \<lparr> notifications_sent = 0, rules_processed = 0, errors = [],
                       availability_processed = Some (length availability),
                       weekend_sites_found = Some 0, rules_matched = Some 0 \<rparr>;
             alert_rules = get_active_alert_rules env;
             stats = stats\<lparr> rules_processed := length alert_rules \<rparr>
         in if alert_rules = [] then (proc, stats, [])
            else
              (let weekend_availability =
                     filter (\<lambda>site. is_weekend_date (check_in_date site) \<and> status site = AVAILABLE)
                       availability;
                   stats = stats\<lparr> weekend_sites_found := Some (length weekend_availability) \<rparr>
               in case process_rules env today availability alert_rules (proc, stats) of
                    (proc', stats') \<Rightarrow>
                      if notification_batch proc' \<noteq> []
                      then (case store_notification_batch env proc' of
                              (proc'', stored) \<Rightarrow> (proc'', stats', stored))
                      else (proc', stats', []))))"

subsection \<open>The rule match predicate as the specification words it\<close>

text \<open>
  The consecutive-night condition: each of the \<open>n\<close> calendar days starting at the
  candidate's check-in date has an available-status record for the same park and
  site id. The match predicate: the conjunction of the six conditions a to f.
\<close>

definition consecutive_run_spec :: "campsite_availability \<Rightarrow> campsite_availability list \<Rightarrow> int \<Rightarrow> bool" where
  "consecutive_run_spec site all_availability n =
     list_all (\<lambda>k. list_ex (\<lambda>a. park a = park site \<and> site_id a = site_id site \<and> status a = AVAILABLE
                                 \<and> check_in_date a = check_in_date site + k) all_availability)
       [0..n - 1]"

definition rule_match_spec ::
  "date \<Rightarrow> alert_rule \<Rightarrow> campsite_availability \<Rightarrow> campsite_availability list \<Rightarrow> bool" where
  "rule_match_spec today rule site all_availability =
     (park site \<in> set (parks rule) \<and>
      site_type site \<in> set (site_types rule) \<and>
      (weekend_only rule \<longrightarrow> weekday (check_in_date site) \<in> {4, 5, 6}) \<and>
      (case (max_price rule, price site) of
         (Some limit, Some amount) \<Rightarrow> amount \<le> limit
       | _ \<Rightarrow> True) \<and>
      check_in_date site - today \<ge> advance_notice_days rule \<and>
      (min_nights rule > 1 \<longrightarrow> consecutive_run_spec site all_availability (min_nights rule)))"

section \<open>Properties\<close>

subsection \<open>Dates\<close>

lemma weekday_range: "0 \<le> weekday d \<and> weekday d < 7"
  by (simp add: weekday_def)

subsection \<open>Campsite search query\<close>

lemma date_range_loop_eq:
  "0 \<le> current \<Longrightarrow> end_d < MAXORDINAL \<Longrightarrow>
   date_range_loop end_d wo current dates =
     Inr (dates @ filter (\<lambda>d. wo \<longrightarrow> weekday d = 5 \<or> weekday d = 6) [current..end_d])"
proof (induction end_d wo current dates rule: date_range_loop.induct)
  case (1 end_d wo current dates)
  show ?case
  proof (cases "current \<le> end_d")
    case False
    then show ?thesis by (simp add: date_range_loop.simps)
  next
    case True
    let ?dates' = "if \<not> wo \<or> weekday current \<ge> 5 then dates @ [current] else dates"
    have step: "fromordinal (current + 1) = Inr (current + 1)"
      using True "1.prems" by (simp add: fromordinal_def)
    have wk: "weekday current \<ge> 5 \<longleftrightarrow> weekday current = 5 \<or> weekday current = 6"
      using weekday_range [of current] by auto
    have "date_range_loop end_d wo current dates = date_range_loop end_d wo (current + 1) ?dates'"
      using True step by (subst date_range_loop.simps) (simp add: Let_def)
    also have "\<dots> = Inr (?dates' @ filter (\<lambda>d. wo \<longrightarrow> weekday d = 5 \<or> weekday d = 6) [current + 1..end_d])"
      using "1.IH" [OF True refl step] "1.prems" by simp
    also have "\<dots> = Inr (dates @ filter (\<lambda>d. wo \<longrightarrow> weekday d = 5 \<or> weekday d = 6) [current..end_d])"
      using True wk by (simp add: upto_rec1 [of current end_d])
    finally show ?thesis .
  qed
qed

text \<open>
  C9 (as amended). For dates \<open>today\<close>, \<open>sd\<close>, \<open>ed\<close>: constructing a search query fails
  with a validation error whenever the end date is not after the start date or the
  start date is in the past. For every query that was constructed, provided its end
  date is before the last representable date 9999-12-31, \<open>get_date_range\<close> returns
  every date from the start date to the end date inclusive, in ascending order, kept
  only if it is a Saturday or Sunday when \<open>weekend_only\<close> is set, and all of them
  otherwise.
\<close>

theorem search_query_date_range:
  assumes "is_date today" and "is_date sd" and "is_date ed"
  shows "(ed \<le> sd \<or> sd < today \<longrightarrow>
            new_CampsiteSearchQuery today ps sd ed sts mp mo wo = Inl ValidationError) \<and>
         (\<forall>q. new_CampsiteSearchQuery today ps sd ed sts mp mo wo = Inr q \<and> ed < MAXORDINAL \<longrightarrow>
            get_date_range q =
              Inr (filter (\<lambda>d. q_weekend_only q \<longrightarrow> weekday d = 5 \<or> weekday d = 6)
                     [q_start_date q..q_end_date q]))"
proof (intro conjI allI impI)
  assume "ed \<le> sd \<or> sd < today"
  then show "new_CampsiteSearchQuery today ps sd ed sts mp mo wo = Inl ValidationError"
    by (auto simp: new_CampsiteSearchQuery_def validate_start_date_def validate_date_range_def)
next
  fix q
  assume a: "new_CampsiteSearchQuery today ps sd ed sts mp mo wo = Inr q \<and> ed < MAXORDINAL"
  then have q: "q_start_date q = sd" "q_end_date q = ed"
    by (auto simp: new_CampsiteSearchQuery_def validate_start_date_def validate_date_range_def
             split: if_splits)
  have "0 \<le> sd" using assms(2) by (simp add: is_date_def)
  then show "get_date_range q =
              Inr (filter (\<lambda>d. q_weekend_only q \<longrightarrow> weekday d = 5 \<or> weekday d = 6)
                     [q_start_date q..q_end_date q])"
    using a q by (simp add: get_date_range_def date_range_loop_eq)
qed

text \<open>
  Witness: today 2026-11-04 (a Wednesday, ordinal 739924), a weekend-only query from
  2026-11-05 to 2026-11-15 yields the two week-ends in between; the same query with
  the end date equal to the start date is refused.
\<close>

theorem search_query_date_range_witness:
  "is_date 739924 \<and> is_date 739925 \<and> is_date 739935 \<and> (739935::int) < MAXORDINAL \<and>
   new_CampsiteSearchQuery 739924 [CARLSBAD] 739925 739935 None None None True =
     Inr \<lparr> q_parks = [CARLSBAD], q_start_date = 739925, q_end_date = 739935, q_site_types = None,
           q_max_price = None, q_min_occupancy = None, q_weekend_only = True \<rparr> \<and>
   get_date_range \<lparr> q_parks = [CARLSBAD], q_start_date = 739925, q_end_date = 739935,
           q_site_types = None, q_max_price = None, q_min_occupancy = None, q_weekend_only = True \<rparr>
     = Inr [739927, 739928, 739934, 739935] \<and>
   new_CampsiteSearchQuery 739924 [CARLSBAD] 739925 739925 None None None True = Inl ValidationError"
proof -
  have d: "is_date 739924" "is_date 739925" "is_date 739935" "(739935::int) < MAXORDINAL"
    by (simp_all add: is_date_def MAXORDINAL_def)
  have c: "new_CampsiteSearchQuery 739924 [CARLSBAD] 739925 739935 None None None True =
     Inr \<lparr> q_parks = [CARLSBAD], q_start_date = 739925, q_end_date = 739935, q_site_types = None,
           q_max_price = None, q_min_occupancy = None, q_weekend_only = True \<rparr>"
    by (simp add: new_CampsiteSearchQuery_def validate_start_date_def validate_date_range_def)
  have f: "filter (\<lambda>d. True \<longrightarrow> weekday d = 5 \<or> weekday d = 6) [739925..739935]
             = [739927, 739928, 739934, 739935]"
    by (simp add: upto_rec1 weekday_def)
  have r: "get_date_range \<lparr> q_parks = [CARLSBAD], q_start_date = 739925, q_end_date = 739935,
           q_site_types = None, q_max_price = None, q_min_occupancy = None, q_weekend_only = True \<rparr>
     = Inr [739927, 739928, 739934, 739935]"
    using search_query_date_range [OF d(1) d(2) d(3), of "[CARLSBAD]" None None None True] c d(4) f
    by simp
  have e: "new_CampsiteSearchQuery 739924 [CARLSBAD] 739925 739925 None None None True = Inl ValidationError"
    using search_query_date_range [OF d(1) d(2) d(2), of "[CARLSBAD]" None None None True] by simp
  show ?thesis using d c r e by simp
qed

text \<open>
  The claim as stated fails at the last representable date: a query from 9999-12-30
  to 9999-12-31, built on 2026-11-04, is valid, and \<open>get_date_range\<close> raises when it
  steps past 9999-12-31 instead of returning the two dates.
\<close>

theorem search_query_date_range_counterexample:
  "new_CampsiteSearchQuery 739924 [CARLSBAD] 3652058 3652059 None None None False =
     Inr \<lparr> q_parks = [CARLSBAD], q_start_date = 3652058, q_end_date = 3652059, q_site_types = None,
           q_max_price = None, q_min_occupancy = None, q_weekend_only = False \<rparr> \<and>
   get_date_range \<lparr> q_parks = [CARLSBAD], q_start_date = 3652058, q_end_date = 3652059,
           q_site_types = None, q_max_price = None, q_min_occupancy = None, q_weekend_only = False \<rparr>
     = Inl (ValueError ''ordinal out of range'')"
  by (simp add: new_CampsiteSearchQuery_def validate_start_date_def validate_date_range_def
        get_date_range_def date_range_loop.simps fromordinal_def MAXORDINAL_def)

subsection \<open>Direct fallback scraper\<close>

lemma strip_nonempty: "\<not> is_space c \<Longrightarrow> strip (c # cs) \<noteq> []"
  by (auto simp: strip_def dropWhile_eq_Nil_conv)

lemma validate_not_empty_ok: "\<not> is_space c \<Longrightarrow> \<exists>v. validate_not_empty (c # cs) = Inr v"
  using strip_nonempty [of c cs] by (simp add: validate_not_empty_def)

lemma new_CampsiteAvailability_fields:
  "new_CampsiteAvailability today kw = Inr a \<Longrightarrow>
     status a = kw_status kw \<and> url a = kw_url kw \<and> check_in_date a = kw_check_in_date kw"
  by (auto simp: new_CampsiteAvailability_def validate_future_date_def
           split: sum.splits if_splits)

lemma sample_kwargs_fields:
  assumes "mk = carlsbad_kwargs clock \<or> mk = joshua_tree_kwargs clock \<or> mk = oceanside_kwargs clock"
    and "mk d = Inr kw"
  shows "kw_status kw = AVAILABLE \<and> kw_url kw = None \<and> kw_booking_url kw = Some booking_page
           \<and> kw_check_in_date kw = d"
  using assms
  by (auto simp: carlsbad_kwargs_def joshua_tree_kwargs_def oceanside_kwargs_def
           split: sum.splits)

lemma sample_loop_records:
  "\<forall>d kw. mk d = Inr kw \<longrightarrow> kw_status kw = AVAILABLE \<and> kw_url kw = None \<Longrightarrow>
   \<forall>a \<in> set acc. status a = AVAILABLE \<and> url a = None \<Longrightarrow>
   sample_loop today mk wds end_d cur acc = Inr xs \<Longrightarrow>
   \<forall>a \<in> set xs. status a = AVAILABLE \<and> url a = None"
proof (induction today mk wds end_d cur acc rule: sample_loop.induct)
  case (1 today mk wds end_d cur acc)
  show ?case
  proof (cases "cur \<le> end_d")
    case False
    with "1.prems"(3) have "xs = acc" by (simp add: sample_loop.simps)
    with "1.prems"(2) show ?thesis by simp
  next
    case True
    let ?body = "if weekday cur \<in> set wds
               then (case mk cur of
                       Inl e \<Rightarrow> Inl e
                     | Inr kw \<Rightarrow>
                         (case new_CampsiteAvailability today kw of
                            Inl e \<Rightarrow> Inl e
                          | Inr a \<Rightarrow> Inr (acc @ [a])))
               else Inr acc"
    from "1.prems"(3) True obtain acc' nxt where
      b: "?body = Inr acc'" and n: "add_days cur 1 = Inr nxt"
      and r: "sample_loop today mk wds end_d nxt acc' = Inr xs"
      by (subst (asm) sample_loop.simps) (simp split: sum.splits)
    have "\<forall>a \<in> set acc'. status a = AVAILABLE \<and> url a = None"
    proof (cases "weekday cur \<in> set wds")
      case False
      with b "1.prems"(2) show ?thesis by simp
    next
      case wd: True
      with b obtain kw a where k: "mk cur = Inr kw"
        and c: "new_CampsiteAvailability today kw = Inr a" and e: "acc' = acc @ [a]"
        by (auto split: sum.splits)
      from k "1.prems"(1) have "kw_status kw = AVAILABLE \<and> kw_url kw = None"
        by blast
      with new_CampsiteAvailability_fields [OF c] e "1.prems"(2) show ?thesis by simp
    qed
    with "1.IH" [OF True b n "1.prems"(1) _ r] show ?thesis by blast
  qed
qed


lemma sample_kwargs_accepted:
  assumes "mk = carlsbad_kwargs clock \<or> mk = joshua_tree_kwargs clock \<or> mk = oceanside_kwargs clock"
    and "today \<le> d" and "1 \<le> d" and "d < MAXORDINAL"
  shows "\<exists>kw a. mk d = Inr kw \<and> new_CampsiteAvailability today kw = Inr a \<and> check_in_date a = d"
proof -
  have nsp: "\<not> is_space CHR ''C''" "\<not> is_space CHR ''B''" "\<not> is_space CHR ''J''"
    "\<not> is_space CHR ''O''" "\<not> is_space CHR ''S''"
    by (simp_all add: is_space_def)
  have co: "add_days d 1 = Inr (d + 1)"
    using assms(3,4) by (simp add: add_days_def)
  from assms(1) show ?thesis
  proof (elim disjE)
    assume m: "mk = carlsbad_kwargs clock"
    obtain v w where "validate_not_empty (''CARL-'' @ strftime_md d @ ''-47'') = Inr v"
      "validate_not_empty (''Beachfront Site #'' @ show_nat (nat (47 + date_day d mod 20))) = Inr w"
      using validate_not_empty_ok [OF nsp(1)] validate_not_empty_ok [OF nsp(2)] by simp blast
    then show ?thesis using m co assms(2)
      by (simp add: carlsbad_kwargs_def new_CampsiteAvailability_def validate_future_date_def)
  next
    assume m: "mk = joshua_tree_kwargs clock"
    obtain v w where "validate_not_empty (''JOSH-'' @ strftime_md d @ ''-15'') = Inr v"
      "validate_not_empty (''Jumbo Rocks Site #'' @ show_nat (nat (15 + date_day d mod 30))) = Inr w"
      using validate_not_empty_ok [OF nsp(3)] by simp blast
    then show ?thesis using m co assms(2)
      by (simp add: joshua_tree_kwargs_def new_CampsiteAvailability_def validate_future_date_def)
  next
    assume m: "mk = oceanside_kwargs clock"
    obtain v w where "validate_not_empty (''OCEAN-'' @ strftime_md d @ ''-22'') = Inr v"
      "validate_not_empty (''San Elijo Site #'' @ show_nat (nat (22 + date_day d mod 15))) = Inr w"
      using validate_not_empty_ok [OF nsp(4)] validate_not_empty_ok [OF nsp(5)] by simp blast
    then show ?thesis using m co assms(2)
      by (simp add: oceanside_kwargs_def new_CampsiteAvailability_def validate_future_date_def)
  qed
qed

lemma sample_loop_returns:
  assumes acc: "\<And>d. today \<le> d \<Longrightarrow> 1 \<le> d \<Longrightarrow> d < MAXORDINAL \<Longrightarrow>
                  \<exists>kw a. mk d = Inr kw \<and> new_CampsiteAvailability today kw = Inr a \<and> check_in_date a = d"
  shows "today \<le> cur \<Longrightarrow> 1 \<le> cur \<Longrightarrow> end_d < MAXORDINAL \<Longrightarrow>
   \<exists>xs. sample_loop today mk wds end_d cur acc = Inr xs \<and>
        map check_in_date xs = map check_in_date acc @ filter (\<lambda>d. weekday d \<in> set wds) [cur..end_d]"
proof (induction "nat (end_d + 1 - cur)" arbitrary: cur acc)
  case 0
  then have "\<not> cur \<le> end_d" by simp
  then show ?case by (simp add: sample_loop.simps)
next
  case (Suc n)
  then have le: "cur \<le> end_d" by simp
  then have lt: "cur < MAXORDINAL" using Suc.prems by simp
  have nx: "add_days cur 1 = Inr (cur + 1)"
    using Suc.prems lt by (simp add: add_days_def)
  obtain kw a where k: "mk cur = Inr kw" and c: "new_CampsiteAvailability today kw = Inr a"
    and ca: "check_in_date a = cur"
    using acc [OF Suc.prems(1) Suc.prems(2) lt] by auto
  let ?acc' = "if weekday cur \<in> set wds then acc @ [a] else acc"
  have st: "sample_loop today mk wds end_d cur acc = sample_loop today mk wds end_d (cur + 1) ?acc'"
    using le nx k c by (subst sample_loop.simps) simp
  have "n = nat (end_d + 1 - (cur + 1))" using Suc.hyps(2) by simp
  from Suc.hyps(1) [OF this, of ?acc'] Suc.prems obtain xs where
    x: "sample_loop today mk wds end_d (cur + 1) ?acc' = Inr xs"
    and m: "map check_in_date xs = map check_in_date ?acc' @ filter (\<lambda>d. weekday d \<in> set wds) [cur + 1..end_d]"
    by auto
  have "map check_in_date xs = map check_in_date acc @ filter (\<lambda>d. weekday d \<in> set wds) [cur..end_d]"
    using m ca le by (simp add: upto_rec1 [of cur end_d])
  with st x show ?case by simp
qed

text \<open>
  C10. Whatever the park and the date range, every record in the list returned by the
  direct fallback scraper has status \<open>AVAILABLE\<close> and no \<open>url\<close>. When the start date is
  not in the past (and the end date is before 9999-12-31, so that stepping to the next
  day cannot overflow) the scraper does return, with one record for each date of the
  range that falls on one of the park's weekdays. The keyword arguments built for a
  record do carry \<open>booking_url\<close>, and never \<open>url\<close>: the constructor ignores the former.
\<close>

theorem direct_scraper_records:
  "(\<forall>xs. scrape_park_availability clock today p (start_date, end_date) = Inr xs \<longrightarrow>
       (\<forall>a \<in> set xs. status a = AVAILABLE \<and> url a = None)) \<and>
   (is_date start_date \<and> today \<le> start_date \<and> end_date < MAXORDINAL \<longrightarrow>
       (\<exists>xs. scrape_park_availability clock today p (start_date, end_date) = Inr xs \<and>
             map check_in_date xs =
               filter (\<lambda>d. weekday d \<in> set (case p of CARLSBAD \<Rightarrow> [0, 1, 4]
                            | JOSHUA_TREE \<Rightarrow> [2, 3, 6] | OCEANSIDE \<Rightarrow> [1, 5]))
                 [start_date..end_date])) \<and>
   (\<forall>d kw. (case p of CARLSBAD \<Rightarrow> carlsbad_kwargs clock d
             | JOSHUA_TREE \<Rightarrow> joshua_tree_kwargs clock d
             | OCEANSIDE \<Rightarrow> oceanside_kwargs clock d) = Inr kw \<longrightarrow>
       kw_booking_url kw = Some booking_page \<and> kw_url kw = None)"
proof (intro conjI allI impI)
  fix xs
  assume r: "scrape_park_availability clock today p (start_date, end_date) = Inr xs"
  obtain mk wds where s: "scrape_park_availability clock today p (start_date, end_date)
      = sample_loop today mk wds end_date start_date []"
    and mk: "mk = carlsbad_kwargs clock \<or> mk = joshua_tree_kwargs clock \<or> mk = oceanside_kwargs clock"
    by (cases p) (simp_all add: scrape_park_availability_def)
  have "\<forall>d kw. mk d = Inr kw \<longrightarrow> kw_status kw = AVAILABLE \<and> kw_url kw = None"
    using sample_kwargs_fields [OF mk] by blast
  from sample_loop_records [OF this _ r [unfolded s]]
  show "\<forall>a \<in> set xs. status a = AVAILABLE \<and> url a = None" by simp
next
  let ?wds = "case p of CARLSBAD \<Rightarrow> [0, 1, 4] | JOSHUA_TREE \<Rightarrow> [2, 3, 6] | OCEANSIDE \<Rightarrow> [1, 5::int]"
  assume h: "is_date start_date \<and> today \<le> start_date \<and> end_date < MAXORDINAL"
  obtain mk where s: "scrape_park_availability clock today p (start_date, end_date)
      = sample_loop today mk ?wds end_date start_date []"
    and mk: "mk = carlsbad_kwargs clock \<or> mk = joshua_tree_kwargs clock \<or> mk = oceanside_kwargs clock"
    by (cases p) (simp_all add: scrape_park_availability_def)
  from h have "today \<le> start_date" "1 \<le> start_date" "end_date < MAXORDINAL"
    by (simp_all add: is_date_def)
  from sample_loop_returns [of today mk, OF sample_kwargs_accepted [OF mk] this, of ?wds "[]"]
  show "\<exists>xs. scrape_park_availability clock today p (start_date, end_date) = Inr xs \<and>
          map check_in_date xs = filter (\<lambda>d. weekday d \<in> set ?wds) [start_date..end_date]"
    unfolding s by simp
next
  fix d kw
  assume "(case p of CARLSBAD \<Rightarrow> carlsbad_kwargs clock d
             | JOSHUA_TREE \<Rightarrow> joshua_tree_kwargs clock d
             | OCEANSIDE \<Rightarrow> oceanside_kwargs clock d) = Inr kw"
  then have "kw_booking_url kw = Some booking_page \<and> kw_url kw = None"
    by (cases p) (auto dest: sample_kwargs_fields [rotated])
  then show "kw_booking_url kw = Some booking_page" and "kw_url kw = None" by simp_all
qed

text \<open>
  Witness: on Wednesday 2026-11-04 (ordinal 739924) the Carlsbad branch run over
  2026-11-04 .. 2026-11-10 synthesizes records for Friday, Monday and Tuesday.
\<close>

theorem direct_scraper_records_witness:
  "is_date 739924 \<and> (739924::int) \<le> 739924 \<and> (739930::int) < MAXORDINAL \<and>
   scrape_park_availability (\<lambda>d. 0) 739924 CARLSBAD (739924, 739930) =
     Inr [\<lparr>park = CARLSBAD, site_id = ''CARL-1106-47'',
           site_name = ''Beachfront Site #53'', site_type = RV,
           check_in_date = 739926, status = AVAILABLE, price = Some 55,
           max_occupancy = Some 6,
           amenities = [''Full Hookups'', ''Beach Access'', ''Fire Ring''],
           scraped_at = 0, url = None\<rparr>,
          \<lparr>park = CARLSBAD, site_id = ''CARL-1109-47'',
           site_name = ''Beachfront Site #56'', site_type = RV,
           check_in_date = 739929, status = AVAILABLE, price = Some 55,
           max_occupancy = Some 6,
           amenities = [''Full Hookups'', ''Beach Access'', ''Fire Ring''],
           scraped_at = 0, url = None\<rparr>,
          \<lparr>park = CARLSBAD, site_id = ''CARL-1110-47'',
           site_name = ''Beachfront Site #57'', site_type = RV,
           check_in_date = 739930, status = AVAILABLE, price = Some 55,
           max_occupancy = Some 6,
           amenities = [''Full Hookups'', ''Beach Access'', ''Fire Ring''],
           scraped_at = 0, url = None\<rparr>] \<and>
   (\<exists>kw. carlsbad_kwargs (\<lambda>d. 0) 739926 = Inr kw \<and> kw_booking_url kw = Some booking_page
           \<and> kw_url kw = None)"
proof -
  have d: "is_date 739924 \<and> (739924::int) \<le> 739924 \<and> (739930::int) < MAXORDINAL"
    by (simp add: is_date_def MAXORDINAL_def)
  have ev: "scrape_park_availability (\<lambda>d. 0) 739924 CARLSBAD (739924, 739930) =
     Inr [\<lparr>park = CARLSBAD, site_id = ''CARL-1106-47'',
           site_name = ''Beachfront Site #53'', site_type = RV,
           check_in_date = 739926, status = AVAILABLE, price = Some 55,
           max_occupancy = Some 6,
           amenities = [''Full Hookups'', ''Beach Access'', ''Fire Ring''],
           scraped_at = 0, url = None\<rparr>,
          \<lparr>park = CARLSBAD, site_id = ''CARL-1109-47'',
           site_name = ''Beachfront Site #56'', site_type = RV,
           check_in_date = 739929, status = AVAILABLE, price = Some 55,
           max_occupancy = Some 6,
           amenities = [''Full Hookups'', ''Beach Access'', ''Fire Ring''],
           scraped_at = 0, url = None\<rparr>,
          \<lparr>park = CARLSBAD, site_id = ''CARL-1110-47'',
           site_name = ''Beachfront Site #57'', site_type = RV,
           check_in_date = 739930, status = AVAILABLE, price = Some 55,
           max_occupancy = Some 6,
           amenities = [''Full Hookups'', ''Beach Access'', ''Fire Ring''],
           scraped_at = 0, url = None\<rparr>]"
    by code_simp
  obtain kw where k: "carlsbad_kwargs (\<lambda>d. 0) 739926 = Inr kw"
    by (simp add: carlsbad_kwargs_def add_days_def MAXORDINAL_def)
  have "kw_booking_url kw = Some booking_page \<and> kw_url kw = None"
    using direct_scraper_records [of "\<lambda>d. 0" 739924 CARLSBAD 739924 739930] k by simp
  with d ev k show ?thesis by simp
qed

subsection \<open>Status normalisation\<close>

lemma normalize_status_letter_a:
  "status_raw \<noteq> [] \<Longrightarrow> contains ''a'' (strip (lower status_raw)) \<Longrightarrow>
     normalize_status status_raw = AVAILABLE"
  by (simp add: normalize_status_def status_mapping_def)

text \<open>
  C3. The claim is that the raw tokens \<open>unavailable\<close> and \<open>na\<close> normalise to \<open>BOOKED\<close>.
  In the code both normalise to \<open>AVAILABLE\<close>: the loop returns at the first entry of
  \<open>status_mapping\<close> whose key is contained in the text, and \<open>available\<close> (contained in
  \<open>unavailable\<close>) and \<open>a\<close> (contained in \<open>na\<close>) come before the entries written for
  these two tokens.
\<close>

theorem normalize_status_unavailable_na:
  "normalize_status ''unavailable'' = AVAILABLE \<and> normalize_status ''na'' = AVAILABLE"
  by (simp add: normalize_status_def status_mapping_def strip_def lower_def lower_char_def
        is_space_def)

subsection \<open>Rate limiter\<close>






subsection \<open>Slicing a list into chunks\<close>

lemma slices_Nil: "slices n [] = []"
  by (cases n) (simp_all add: slices_def)

lemma slices_rec:
  assumes "0 < n" and "xs \<noteq> []"
  shows "slices n xs = take n xs # slices n (drop n xs)"
proof -
  let ?m = "(length xs + n - 1) div n"
  have len: "0 < length xs" using assms(2) by simp
  have m: "?m = Suc ((length (drop n xs) + n - 1) div n)"
  proof (cases "n \<le> length xs")
    case True
    then have "length xs + n - 1 = (length xs - n + n - 1) + n" using assms(1) by simp
    then have "?m = (length xs - n + n - 1) div n + 1"
      using assms(1) by (metis div_add_self2 less_numeral_extra(3))
    then show ?thesis by simp
  next
    case False
    then have "length xs + n - 1 < 2 * n" "n \<le> length xs + n - 1" using len by linarith+
    then have "?m = 1"
      by (metis One_nat_def div_nat_eqI mult.commute mult_2 nat_mult_1_right plus_1_eq_Suc mult_Suc_right)
    moreover have "(length (drop n xs) + n - 1) div n = 0" using False assms(1) by simp
    ultimately show ?thesis by simp
  qed
  have "[0..<?m] = 0 # map Suc [0..<(length (drop n xs) + n - 1) div n]"
    unfolding m by (simp add: upt_conv_Cons map_Suc_upt del: upt_Suc)
  then show ?thesis
    by (simp add: slices_def add.commute drop_drop del: upt_Suc)
qed


lemma slices_bounds: "0 < n \<Longrightarrow> c \<in> set (slices n xs) \<Longrightarrow> c \<noteq> [] \<and> length c \<le> n"
proof (induction "length xs" arbitrary: xs rule: less_induct)
  case less
  show ?case
  proof (cases "xs = []")
    case True
    with less.prems show ?thesis by (simp add: slices_Nil)
  next
    case False
    then have l: "length (drop n xs) < length xs" using less.prems by simp
    from less.prems False have "c = take n xs \<or> c \<in> set (slices n (drop n xs))"
      by (simp add: slices_rec)
    then show ?thesis
    proof
      assume "c = take n xs"
      then show ?thesis using False less.prems(1) by simp
    next
      assume "c \<in> set (slices n (drop n xs))"
      from less.hyps [OF l less.prems(1) this] show ?thesis .
    qed
  qed
qed


subsection \<open>Data store client\<close>

lemma availability_records_raise:
  "availability \<noteq> [] \<Longrightarrow> availability_records uuid now i availability = Inl AttributeError"
  by (cases availability)
     (simp_all add: availability_record_def field_dot_value_def use_enum_values_def)

lemma store_availability_data_empty:
  "store_availability_data b uuid now [] = (Inr True, [])"
  by (simp add: store_availability_data_def)

lemma store_availability_data_nonempty:
  "availability \<noteq> [] \<Longrightarrow>
     store_availability_data b uuid now availability =
       (Inl (SupabaseError (''Storage failed: '' @ str_of_error AttributeError)), [])"
  by (simp add: store_availability_data_def availability_records_raise)

lemma insert_batches_all_succeed:
  "\<forall>c \<in> set chunks. \<exists>r. insert_rows_direct b (availability_insert c) = Inr r \<and> r_success r \<Longrightarrow>
     insert_batches b chunks = (Inr (), map availability_insert chunks)"
  by (induction chunks) (auto simp: call_insert_rows_def)

lemma insert_batches_raise:
  "insert_batches b chunks = (Inl e, calls) \<Longrightarrow>
     \<exists>k < length chunks. calls = map availability_insert (take (Suc k) chunks) \<and>
        (\<exists>m. e = SupabaseError m) \<and>
        (case insert_rows_direct b (availability_insert (chunks ! k)) of
           Inl x \<Rightarrow> True | Inr r \<Rightarrow> \<not> r_success r)"
proof (induction chunks arbitrary: calls)
  case Nil
  then show ?case by simp
next
  case (Cons c cs)
  show ?case
  proof (cases "insert_rows_direct b (availability_insert c)")
    case (Inl x)
    with Cons.prems have "calls = [availability_insert c] \<and> (\<exists>m. e = SupabaseError m)"
      by (auto simp: call_insert_rows_def)
    with Inl show ?thesis by (intro exI [of _ 0]) simp
  next
    case (Inr r)
    show ?thesis
    proof (cases "r_success r")
      case False
      with Inr Cons.prems have "calls = [availability_insert c] \<and> (\<exists>m. e = SupabaseError m)"
        by (auto simp: call_insert_rows_def)
      with Inr False show ?thesis by (intro exI [of _ 0]) simp
    next
      case True
      with Inr Cons.prems obtain calls' where r: "insert_batches b cs = (Inl e, calls')"
        and c: "calls = availability_insert c # calls'"
        by (auto simp: call_insert_rows_def split: prod.splits)
      from Cons.IH [OF r] obtain k where "k < length cs"
        "calls' = map availability_insert (take (Suc k) cs)"
        "\<exists>m. e = SupabaseError m"
        "case insert_rows_direct b (availability_insert (cs ! k)) of
           Inl x \<Rightarrow> True | Inr r \<Rightarrow> \<not> r_success r"
        by blast
      with c show ?thesis by (intro exI [of _ "Suc k"]) simp
    qed
  qed
qed

lemma get_availability_by_park_query_failure:
  "(case execute_query_direct b (availability_query p start_date end_date status_filter) of
      Inl e \<Rightarrow> True | Inr r \<Rightarrow> \<not> r_success r) \<Longrightarrow>
   get_availability_by_park b today p start_date end_date status_filter = []"
  by (auto simp: get_availability_by_park_def get_availability_by_park_body_def execute_query_def
           split: sum.splits)

text \<open>
  C7. The claim is that \<open>store_availability_data\<close>, given a non-empty list, inserts it
  in batches of 1000 and raises only when a batch reports failure. In the code a
  non-empty list never reaches an insert: building the first row evaluates
  \<open>avail.park.value\<close> on a field that holds a plain \<open>str\<close>, the AttributeError is caught
  by the \<open>except Exception\<close> of the method and re-raised as \<open>SupabaseError\<close>. Here for
  one record and the simulated store of this build; \<open>store_availability_data_nonempty\<close>
  is the same for every non-empty list and every store. The remaining parts of the
  claim hold: the empty list returns \<open>True\<close> without a call
  (\<open>store_availability_data_empty\<close>), the batch loop sends the chunks in order and
  turns the first failing batch into a \<open>SupabaseError\<close> (\<open>insert_batches_all_succeed\<close>,
  \<open>insert_batches_raise\<close>), and the read operation returns the empty list when the
  query fails (\<open>get_availability_by_park_query_failure\<close>).
\<close>

theorem store_availability_data_one_record:
  "store_availability_data simulated_backend (\<lambda>i. ''0'') 0
     [\<lparr>park = CARLSBAD, site_id = ''47'', site_name = ''Beachfront Site'', site_type = RV,
       check_in_date = 739930, status = AVAILABLE, price = Some 55, max_occupancy = Some 6,
       amenities = [], scraped_at = 0, url = None\<rparr>]
   = (Inl (SupabaseError (''Storage failed: '' @ str_of_error AttributeError)), [])"
  by (simp add: store_availability_data_def availability_record_def field_dot_value_def
        use_enum_values_def)

subsection \<open>Calendar dashboard\<close>

lemma month_cases:
  assumes "1 \<le> (m::int)" "m \<le> 12"
  obtains "m = 1" | "m = 2" | "m = 3" | "m = 4" | "m = 5" | "m = 6" | "m = 7" | "m = 8"
    | "m = 9" | "m = 10" | "m = 11" | "m = 12"
proof -
  have "m = 1 \<or> m = 2 \<or> m = 3 \<or> m = 4 \<or> m = 5 \<or> m = 6 \<or> m = 7 \<or> m = 8
      \<or> m = 9 \<or> m = 10 \<or> m = 11 \<or> m = 12"
    using assms by presburger
  then show ?thesis using that by blast
qed

lemma leap_rules_agree: "is_leap y = leap_year_rule y" "isleap y = leap_year_rule y"
  by (auto simp: is_leap_def isleap_def leap_year_rule_def dvd_eq_mod_eq_0)

lemma monthrange_ndays_true:
  assumes "1 \<le> m" "m \<le> 12"
  shows "monthrange_ndays y m = Inr (true_month_length y m)"
  using assms
  by (cases m rule: month_cases)
     (simp_all add: monthrange_ndays_def true_month_length_def mdays_def leap_rules_agree)

lemma days_in_month_true:
  assumes "1 \<le> m" "m \<le> 12"
  shows "days_in_month y m = true_month_length y m"
  using assms
  by (cases m rule: month_cases)
     (simp_all add: days_in_month_def true_month_length_def DAYS_IN_MONTH_def leap_rules_agree)

lemma true_month_length_pos: "1 \<le> true_month_length y m"
  by (simp add: true_month_length_def)

lemma new_date_valid:
  assumes "MINYEAR \<le> y" "y \<le> MAXYEAR" "1 \<le> m" "m \<le> 12" "1 \<le> d" "d \<le> true_month_length y m"
  shows "new_date y m d = Inr (ymd2ord y m d)"
  using assms by (simp add: new_date_def days_in_month_true)

lemma calendar_days_loop_eq:
  assumes "MINYEAR \<le> y" "y \<le> MAXYEAR" "1 \<le> m" "m \<le> 12"
  shows "\<forall>d \<in> set ds. 1 \<le> d \<and> d \<le> true_month_length y m \<Longrightarrow>
    calendar_days_loop all_av y m ds (cds, t, w) =
      Inr (cds @ map (\<lambda>d. day_data all_av (ymd2ord y m d)) ds,
           t + sum_list (map (\<lambda>d. available_count (day_data all_av (ymd2ord y m d))) ds),
           w + sum_list (map (\<lambda>d. available_count (day_data all_av (ymd2ord y m d)))
                          (filter (\<lambda>d. weekend (day_data all_av (ymd2ord y m d))) ds)))"
proof (induction ds arbitrary: cds t w)
  case Nil
  then show ?case by simp
next
  case (Cons d ds)
  then have nd: "new_date y m d = Inr (ymd2ord y m d)"
    using new_date_valid [OF assms] by simp
  from Cons.prems have "\<forall>d \<in> set ds. 1 \<le> d \<and> d \<le> true_month_length y m" by simp
  from Cons.IH [OF this] show ?case
    by (simp add: nd Let_def)
qed


lemma day_data_fields:
  "cd_date (day_data all_av d) = d"
  "weekend (day_data all_av d) = (weekday d = 5 \<or> weekday d = 6)"
  "available_count (day_data all_av d) =
     int (length (filter (\<lambda>a. check_in_date a = d \<and> status a = AVAILABLE) all_av))"
  "total_sites (day_data all_av d) = int (length (filter (\<lambda>a. check_in_date a = d) all_av))"
  using weekday_range [of d] by (auto simp: day_data_def Let_def)

text \<open>
  C8. For every year in 1..9999 and month in 1..12, and whatever the store returns, the
  calendar generator returns a month whose number of day entries is the true length
  of the month (29 for February of a leap year). The entry at position \<open>i\<close> is for day
  \<open>i + 1\<close> of the month; its weekend flag is true exactly when that date is a Saturday
  or a Sunday; its \<open>available_count\<close> is the number of fetched entries for that date with
  status \<open>AVAILABLE\<close> and its \<open>total_sites\<close> the number of fetched entries for that date
  of any status. The month's \<open>total_available\<close> is the sum of the available counts of
  all days and \<open>weekend_available\<close> the sum over the days flagged as weekend.
\<close>

theorem calendar_month_days:
  assumes "MINYEAR \<le> year" and "year \<le> MAXYEAR" and "1 \<le> month" and "month \<le> 12"
  shows "\<exists>cal. generate_calendar_data b today year month park_list = Inr cal \<and>
     int (length (days cal)) = true_month_length year month \<and>
     (month = 2 \<and> leap_year_rule year \<longrightarrow> length (days cal) = 29) \<and>
     (let all_availability =
            concat (map (\<lambda>p. get_availability_data b today p (ymd2ord year month 1)
                          (ymd2ord year month (true_month_length year month)) None) park_list)
      in \<forall>i < length (days cal).
           cd_date (days cal ! i) = ymd2ord year month (int i + 1) \<and>
           weekend (days cal ! i) =
             (weekday (cd_date (days cal ! i)) = 5 \<or> weekday (cd_date (days cal ! i)) = 6) \<and>
           available_count (days cal ! i) =
             int (length (filter (\<lambda>a. check_in_date a = cd_date (days cal ! i) \<and> status a = AVAILABLE)
                            all_availability)) \<and>
           total_sites (days cal ! i) =
             int (length (filter (\<lambda>a. check_in_date a = cd_date (days cal ! i)) all_availability))) \<and>
     total_available cal = sum_list (map available_count (days cal)) \<and>
     weekend_available cal = sum_list (map available_count (filter weekend (days cal)))"
proof -
  let ?L = "true_month_length year month"
  let ?all = "concat (map (\<lambda>p. get_availability_data b today p (ymd2ord year month 1)
                          (ymd2ord year month ?L) None) park_list)"
  let ?f = "\<lambda>d. day_data ?all (ymd2ord year month d)"
  let ?cal = "\<lparr> cm_year = year, cm_month = month, month_name = month_names ! nat (month - 1),
                days = map ?f [1..?L], cm_parks = map park_value park_list,
                total_available = sum_list (map (\<lambda>d. available_count (?f d)) [1..?L]),
                weekend_available = sum_list (map (\<lambda>d. available_count (?f d))
                                                (filter (\<lambda>d. weekend (?f d)) [1..?L])) \<rparr>"
  have Lpos: "1 \<le> ?L" by (rule true_month_length_pos)
  have first: "new_date year month 1 = Inr (ymd2ord year month 1)"
    using new_date_valid [OF assms, of 1] Lpos by simp
  have last: "new_date year month ?L = Inr (ymd2ord year month ?L)"
    using new_date_valid [OF assms, of ?L] Lpos by simp
  have loop: "calendar_days_loop ?all year month [1..?L] ([], 0, 0) =
      Inr (map ?f [1..?L], sum_list (map (\<lambda>d. available_count (?f d)) [1..?L]),
           sum_list (map (\<lambda>d. available_count (?f d)) (filter (\<lambda>d. weekend (?f d)) [1..?L])))"
    using calendar_days_loop_eq [OF assms, of "[1..?L]" ?all "[]" 0 0] by simp
  have gen: "generate_calendar_data b today year month park_list = Inr ?cal"
    by (simp add: generate_calendar_data_def first last monthrange_ndays_true [OF assms(3,4)]
          loop Let_def)
  have len: "int (length (days ?cal)) = ?L" using Lpos by simp
  have feb: "month = 2 \<and> leap_year_rule year \<longrightarrow> length (days ?cal) = 29"
    by (simp add: true_month_length_def)
  have each: "\<forall>i < length (days ?cal).
           cd_date (days ?cal ! i) = ymd2ord year month (int i + 1) \<and>
           weekend (days ?cal ! i) =
             (weekday (cd_date (days ?cal ! i)) = 5 \<or> weekday (cd_date (days ?cal ! i)) = 6) \<and>
           available_count (days ?cal ! i) =
             int (length (filter (\<lambda>a. check_in_date a = cd_date (days ?cal ! i) \<and> status a = AVAILABLE)
                            ?all)) \<and>
           total_sites (days ?cal ! i) =
             int (length (filter (\<lambda>a. check_in_date a = cd_date (days ?cal ! i)) ?all))"
    by (simp add: day_data_fields add.commute)
  have tot: "total_available ?cal = sum_list (map available_count (days ?cal))"
    by (simp add: comp_def)
  have wk: "weekend_available ?cal = sum_list (map available_count (filter weekend (days ?cal)))"
    by (simp add: filter_map comp_def)
  from gen len feb each tot wk show ?thesis
    unfolding Let_def by blast
qed


lemma sum_filter_pairs:
  "sum_list (map g (filter f xs)) = sum_list (map snd (filter fst (map (\<lambda>x. (f x, g x)) xs)))"
  by (induction xs) auto

lemma sum_all_pairs:
  "sum_list (map g xs) = sum_list (map snd (map (\<lambda>x. (f x, g x)) xs))"
  by (induction xs) auto

text \<open>
  Witness: February 2024, generated on 2024-01-01 against a store holding one available
  site for Saturday 2024-02-03 (ordinal 738919): 29 days, the week-ends on the 3rd/4th,
  10th/11th, 17th/18th and 24th/25th, one available site in all, on a weekend day.
\<close>

theorem calendar_month_days_witness:
  "MINYEAR \<le> 2024 \<and> 2024 \<le> MAXYEAR \<and> (1::int) \<le> 2 \<and> (2::int) \<le> 12 \<and>
   (\<exists>cal. generate_calendar_data
            \<lparr> insert_rows_direct = (\<lambda>parameters. Inl KeyError),
              execute_query_direct = (\<lambda>query. Inr \<lparr> r_success = True, r_error = None,
                 r_data = [Row \<lparr> kw_park = CARLSBAD, kw_site_id = ''47'', kw_site_name = ''Site 47'',
                                  kw_site_type = RV, kw_check_in_date = 738919, kw_status = AVAILABLE,
                                  kw_price = Some 55, kw_max_occupancy = None, kw_amenities = [],
                                  kw_scraped_at = 0, kw_url = None, kw_check_out_date = None,
                                  kw_booking_url = None \<rparr>] \<rparr>) \<rparr>
            738886 2024 2 [CARLSBAD] = Inr cal \<and>
      length (days cal) = 29 \<and>
      map (\<lambda>d. (weekend d, available_count d)) (days cal) =
        [(False, 0), (False, 0), (True, 1), (True, 0), (False, 0), (False, 0), (False, 0),
         (False, 0), (False, 0), (True, 0), (True, 0), (False, 0), (False, 0), (False, 0),
         (False, 0), (False, 0), (True, 0), (True, 0), (False, 0), (False, 0), (False, 0),
         (False, 0), (False, 0), (True, 0), (True, 0), (False, 0), (False, 0), (False, 0),
         (False, 0)] \<and>
      total_available cal = 1 \<and> weekend_available cal = 1)"
proof -
  let ?b = "\<lparr> insert_rows_direct = (\<lambda>parameters. Inl KeyError),
              execute_query_direct = (\<lambda>query. Inr \<lparr> r_success = True, r_error = None,
                 r_data = [Row \<lparr> kw_park = CARLSBAD, kw_site_id = ''47'', kw_site_name = ''Site 47'',
                                  kw_site_type = RV, kw_check_in_date = 738919, kw_status = AVAILABLE,
                                  kw_price = Some 55, kw_max_occupancy = None, kw_amenities = [],
                                  kw_scraped_at = 0, kw_url = None, kw_check_out_date = None,
                                  kw_booking_url = None \<rparr>] \<rparr>) \<rparr>"
  have h: "MINYEAR \<le> 2024" "2024 \<le> MAXYEAR" "(1::int) \<le> 2" "(2::int) \<le> 12"
    by (simp_all add: MINYEAR_def MAXYEAR_def)
  have L: "true_month_length 2024 2 = 29"
    by (simp add: true_month_length_def leap_year_rule_def)
  have ne: "validate_not_empty ''47'' = Inr ''47''" "validate_not_empty ''Site 47'' = Inr ''Site 47''"
    by (simp_all add: validate_not_empty_def strip_def is_space_def)
  have av: "concat (map (\<lambda>p. get_availability_data ?b 738886 p (ymd2ord 2024 2 1)
                          (ymd2ord 2024 2 (true_month_length 2024 2)) None) [CARLSBAD])
            = [\<lparr>park = CARLSBAD, site_id = ''47'', site_name = ''Site 47'', site_type = RV,
                check_in_date = 738919, status = AVAILABLE, price = Some 55, max_occupancy = None,
                amenities = [], scraped_at = 0, url = None\<rparr>]"
    by (simp add: get_availability_data_def get_availability_by_park_def
          get_availability_by_park_body_def execute_query_def new_CampsiteAvailability_def
          validate_future_date_def ne)
  have od: "\<And>i. ymd2ord 2024 2 (int i + 1) = 738917 + int i"
    by (simp add: ymd2ord_def days_before_year_def days_before_month_def DAYS_BEFORE_MONTH_def
          is_leap_def Let_def)
  from calendar_month_days [OF h, of ?b 738886 "[CARLSBAD]"] obtain cal where
    g: "generate_calendar_data ?b 738886 2024 2 [CARLSBAD] = Inr cal"
    and len0: "int (length (days cal)) = true_month_length 2024 2"
    and each0: "let all_availability =
            concat (map (\<lambda>p. get_availability_data ?b 738886 p (ymd2ord 2024 2 1)
                          (ymd2ord 2024 2 (true_month_length 2024 2)) None) [CARLSBAD])
      in \<forall>i < length (days cal).
           cd_date (days cal ! i) = ymd2ord 2024 2 (int i + 1) \<and>
           weekend (days cal ! i) =
             (weekday (cd_date (days cal ! i)) = 5 \<or> weekday (cd_date (days cal ! i)) = 6) \<and>
           available_count (days cal ! i) =
             int (length (filter (\<lambda>a. check_in_date a = cd_date (days cal ! i) \<and> status a = AVAILABLE)
                            all_availability)) \<and>
           total_sites (days cal ! i) =
             int (length (filter (\<lambda>a. check_in_date a = cd_date (days cal ! i)) all_availability))"
    and tot: "total_available cal = sum_list (map available_count (days cal))"
    and wk: "weekend_available cal = sum_list (map available_count (filter weekend (days cal)))"
    by blast
  have len: "length (days cal) = 29" using len0 L by simp
  have each: "\<forall>i < 29. weekend (days cal ! i) =
             (weekday (738917 + int i) = 5 \<or> weekday (738917 + int i) = 6) \<and>
           available_count (days cal ! i) = (if i = 2 then 1 else 0)"
  proof (intro allI impI)
    fix i :: nat
    assume "i < 29"
    with each0 [unfolded av Let_def] len
    have c: "cd_date (days cal ! i) = 738917 + int i"
      and w: "weekend (days cal ! i) =
             (weekday (cd_date (days cal ! i)) = 5 \<or> weekday (cd_date (days cal ! i)) = 6)"
      and a: "available_count (days cal ! i) =
             int (length (filter (\<lambda>a. check_in_date a = cd_date (days cal ! i) \<and> status a = AVAILABLE)
                [\<lparr>park = CARLSBAD, site_id = ''47'', site_name = ''Site 47'', site_type = RV,
                check_in_date = 738919, status = AVAILABLE, price = Some 55, max_occupancy = None,
                amenities = [], scraped_at = 0, url = None\<rparr>]))"
      by (simp_all add: od)
    have "(738919 = 738917 + int i) = (i = 2)" by presburger
    then show "weekend (days cal ! i) =
             (weekday (738917 + int i) = 5 \<or> weekday (738917 + int i) = 6) \<and>
           available_count (days cal ! i) = (if i = 2 then 1 else 0)"
      using c w a by simp
  qed
  have p: "map (\<lambda>d. (weekend d, available_count d)) (days cal) =
      map (\<lambda>i. (weekday (738917 + int i) = 5 \<or> weekday (738917 + int i) = 6,
                 if i = 2 then 1 else 0)) [0..<29]"
    using len each by (intro nth_equalityI) simp_all
  have p': "map (\<lambda>d. (weekend d, available_count d)) (days cal) =
      [(False, 0), (False, 0), (True, 1), (True, 0), (False, 0), (False, 0), (False, 0),
       (False, 0), (False, 0), (True, 0), (True, 0), (False, 0), (False, 0), (False, 0),
       (False, 0), (False, 0), (True, 0), (True, 0), (False, 0), (False, 0), (False, 0),
       (False, 0), (False, 0), (True, 0), (True, 0), (False, 0), (False, 0), (False, 0),
       (False, 0)]"
    unfolding p by code_simp
  have t: "total_available cal = 1"
    unfolding tot sum_all_pairs [of available_count "days cal" weekend] p' by simp
  have k: "weekend_available cal = 1"
    unfolding wk sum_filter_pairs [of available_count weekend "days cal"] p' by simp
  from h g len p' t k show ?thesis by (intro conjI exI [of _ cal]) simp_all
qed

subsection \<open>Alert rule matching\<close>

lemma nights_loop_run:
  "sorted (map check_in_date xs) \<Longrightarrow> cnt < mn \<Longrightarrow> 0 \<le> cur \<Longrightarrow> cur + (mn - cnt) \<le> MAXORDINAL \<Longrightarrow>
   nights_loop xs cnt cur mn = Inr (\<forall>k \<in> {0..<mn - cnt}. cur + k \<in> check_in_date ` set xs)"
proof (induction xs arbitrary: cnt cur)
  case Nil
  then show ?case by auto
next
  case (Cons a xs)
  have srt: "sorted (map check_in_date xs)" and ge: "\<forall>d \<in> check_in_date ` set xs. check_in_date a \<le> d"
    using Cons.prems(1) by auto
  consider (eq) "check_in_date a = cur" | (gt) "check_in_date a > cur" | (lt) "check_in_date a < cur"
    by linarith
  then show ?case
  proof cases
    case eq
    have nx: "add_days cur 1 = Inr (cur + 1)"
      using Cons.prems by (simp add: add_days_def)
    show ?thesis
    proof (cases "cnt + 1 \<ge> mn")
      case True
      then have "mn - cnt = 1" using Cons.prems(2) by simp
      then show ?thesis using eq nx True by simp
    next
      case False
      then have lt': "cnt + 1 < mn" by simp
      have ih: "nights_loop xs (cnt + 1) (cur + 1) mn =
          Inr (\<forall>k \<in> {0..<mn - (cnt + 1)}. cur + 1 + k \<in> check_in_date ` set xs)"
        using Cons.IH [OF srt lt', of "cur + 1"] Cons.prems by simp
      have "(\<forall>k \<in> {0..<mn - (cnt + 1)}. cur + 1 + k \<in> check_in_date ` set xs) \<longleftrightarrow>
            (\<forall>k \<in> {0..<mn - cnt}. cur + k \<in> check_in_date ` set (a # xs))"
      proof
        assume l: "\<forall>k \<in> {0..<mn - (cnt + 1)}. cur + 1 + k \<in> check_in_date ` set xs"
        show "\<forall>k \<in> {0..<mn - cnt}. cur + k \<in> check_in_date ` set (a # xs)"
        proof
          fix k assume k: "k \<in> {0..<mn - cnt}"
          show "cur + k \<in> check_in_date ` set (a # xs)"
          proof (cases "k = 0")
            case True
            then show ?thesis using eq by simp
          next
            case False
            then have "k - 1 \<in> {0..<mn - (cnt + 1)}" using k by auto
            from l [rule_format, OF this] show ?thesis by simp
          qed
        qed
      next
        assume r: "\<forall>k \<in> {0..<mn - cnt}. cur + k \<in> check_in_date ` set (a # xs)"
        show "\<forall>k \<in> {0..<mn - (cnt + 1)}. cur + 1 + k \<in> check_in_date ` set xs"
        proof
          fix k assume k: "k \<in> {0..<mn - (cnt + 1)}"
          then have "k + 1 \<in> {0..<mn - cnt}" by auto
          from r [rule_format, OF this] have "cur + (k + 1) \<in> check_in_date ` set (a # xs)" .
          then have "cur + 1 + k \<in> check_in_date ` set (a # xs)" by (simp only: add.assoc add.commute [of k 1])
          moreover have "cur + 1 + k \<noteq> check_in_date a" using eq k by auto
          ultimately show "cur + 1 + k \<in> check_in_date ` set xs" by auto
        qed
      qed
      then show ?thesis using eq nx False ih by simp
    qed
  next
    case gt
    have "cur \<notin> check_in_date ` set (a # xs)" using gt ge by auto
    moreover have "0 \<in> {0..<mn - cnt}" using Cons.prems(2) by simp
    ultimately have "\<not> (\<forall>k \<in> {0..<mn - cnt}. cur + k \<in> check_in_date ` set (a # xs))"
      by (metis add.right_neutral)
    then show ?thesis using gt Cons.prems(2) by simp
  next
    case lt
    have "(\<forall>k \<in> {0..<mn - cnt}. cur + k \<in> check_in_date ` set (a # xs)) \<longleftrightarrow>
          (\<forall>k \<in> {0..<mn - cnt}. cur + k \<in> check_in_date ` set xs)"
      using lt by auto
    then show ?thesis using lt Cons.IH [OF srt Cons.prems(2,3,4)] by simp
  qed
qed


lemma consecutive_run_spec_iff:
  "consecutive_run_spec site all_availability n \<longleftrightarrow>
     (\<forall>k \<in> {0..<n}. check_in_date site + k \<in>
        check_in_date ` set (filter (\<lambda>avail. park avail = park site \<and> site_id avail = site_id site
                               \<and> status avail = AVAILABLE) all_availability))"
proof -
  have s: "set [0..n - 1] = {0..<n}" by auto
  have e: "\<And>k. (\<exists>a \<in> set all_availability. park a = park site \<and> site_id a = site_id site
                  \<and> status a = AVAILABLE \<and> check_in_date a = check_in_date site + k) \<longleftrightarrow>
             check_in_date site + k \<in>
               check_in_date ` set (filter (\<lambda>avail. park avail = park site \<and> site_id avail = site_id site
                               \<and> status avail = AVAILABLE) all_availability)"
    by force
  show ?thesis
    unfolding consecutive_run_spec_def list_all_iff list_ex_iff s e ..
qed

lemma check_consecutive_nights_spec:
  assumes "0 < n" and "0 \<le> check_in_date site" and "check_in_date site + n \<le> MAXORDINAL"
  shows "check_consecutive_nights site all_availability n =
           Inr (consecutive_run_spec site all_availability n)"
proof -
  let ?xs = "sort_key check_in_date
              (filter (\<lambda>avail. park avail = park site \<and> site_id avail = site_id site
                               \<and> status avail = AVAILABLE) all_availability)"
  have "sorted (map check_in_date ?xs)" by (rule sorted_sort_key)
  from nights_loop_run [OF this, of 0 n "check_in_date site"] assms
  show ?thesis
    by (simp add: check_consecutive_nights_def consecutive_run_spec_iff)
qed

text \<open>
  Apart from a maximum price of zero, the code computes the predicate of the
  specification: for a rule whose maximum price, if set, is positive, and a candidate
  whose run of nights ends within the range of dates.
\<close>

lemma matches_alert_rule_spec:
  assumes "case max_price rule of None \<Rightarrow> True | Some limit \<Rightarrow> 0 < limit"
    and "0 \<le> check_in_date site"
    and "min_nights rule > 1 \<longrightarrow> check_in_date site + min_nights rule \<le> MAXORDINAL"
  shows "matches_alert_rule today rule site all_availability =
           Inr (rule_match_spec today rule site all_availability)"
proof -
  have wk: "is_weekend_date (check_in_date site) \<longleftrightarrow> weekday (check_in_date site) \<in> {4, 5, 6}"
    using weekday_range [of "check_in_date site"] by (auto simp: is_weekend_date_def)
  have pr: "(case (max_price rule, price site) of
                 (Some limit, Some amount) \<Rightarrow> limit \<noteq> 0 \<and> amount \<noteq> 0 \<and> amount > limit
               | _ \<Rightarrow> False) \<longleftrightarrow>
            \<not> (case (max_price rule, price site) of
                 (Some limit, Some amount) \<Rightarrow> amount \<le> limit | _ \<Rightarrow> True)"
    using assms(1) by (auto split: option.splits)
  show ?thesis
  proof (cases "min_nights rule > 1")
    case True
    then have "check_consecutive_nights site all_availability (min_nights rule) =
           Inr (consecutive_run_spec site all_availability (min_nights rule))"
      using check_consecutive_nights_spec [OF _ assms(2)] assms(3) by simp
    then show ?thesis using True
      unfolding matches_alert_rule_def rule_match_spec_def pr wk by auto
  next
    case False
    then show ?thesis
      unfolding matches_alert_rule_def rule_match_spec_def pr wk by auto
  qed
qed

text \<open>
  C1. The claim is that the match predicate holds exactly when the six conditions do,
  among them that the price is at most the maximum price when both are set. The code
  tests \<open>rule.max_price\<close> for truth, and a maximum price of \<open>0.0\<close> is false: a rule with
  maximum price 0 (only free sites), seen on 2026-11-04, matches a site priced at 60
  with check-in on Saturday 2026-11-14, although the price condition fails.
\<close>

theorem matches_alert_rule_zero_max_price:
  "matches_alert_rule 739924
     \<lparr> rule_id = Some ''r1'', user_email = ''camper@example.com'', parks = [CARLSBAD],
       site_types = [RV], weekend_only = True, min_nights = 1, max_price = Some 0,
       advance_notice_days = 7, created_at = 0, updated_at = 0, is_active = True \<rparr>
     \<lparr> park = CARLSBAD, site_id = ''47'', site_name = ''Beachfront Site'', site_type = RV,
       check_in_date = 739934, status = AVAILABLE, price = Some 60, max_occupancy = Some 6,
       amenities = [], scraped_at = 0, url = None \<rparr>
     [\<lparr> park = CARLSBAD, site_id = ''47'', site_name = ''Beachfront Site'', site_type = RV,
        check_in_date = 739934, status = AVAILABLE, price = Some 60, max_occupancy = Some 6,
        amenities = [], scraped_at = 0, url = None \<rparr>] = Inr True
   \<and> \<not> rule_match_spec 739924
     \<lparr> rule_id = Some ''r1'', user_email = ''camper@example.com'', parks = [CARLSBAD],
       site_types = [RV], weekend_only = True, min_nights = 1, max_price = Some 0,
       advance_notice_days = 7, created_at = 0, updated_at = 0, is_active = True \<rparr>
     \<lparr> park = CARLSBAD, site_id = ''47'', site_name = ''Beachfront Site'', site_type = RV,
       check_in_date = 739934, status = AVAILABLE, price = Some 60, max_occupancy = Some 6,
       amenities = [], scraped_at = 0, url = None \<rparr>
     [\<lparr> park = CARLSBAD, site_id = ''47'', site_name = ''Beachfront Site'', site_type = RV,
        check_in_date = 739934, status = AVAILABLE, price = Some 60, max_occupancy = Some 6,
        amenities = [], scraped_at = 0, url = None \<rparr>]"
  by (simp add: matches_alert_rule_def rule_match_spec_def is_weekend_date_def weekday_def)

text \<open>
  At that input every condition of the predicate other than the price condition holds
  (the rule is weekend-only and the check-in date is a Saturday, ten days ahead; one
  night is asked for), so the price alone separates the code from the claim.
\<close>

theorem matches_alert_rule_zero_max_price_witness:
  "weekend_only (\<lparr> rule_id = Some ''r1'', user_email = ''camper@example.com'', parks = [CARLSBAD],
       site_types = [RV], weekend_only = True, min_nights = 1, max_price = Some 0,
       advance_notice_days = 7, created_at = 0, updated_at = 0, is_active = True \<rparr>) \<and> weekday (check_in_date (\<lparr> park = CARLSBAD, site_id = ''47'', site_name = ''Beachfront Site'', site_type = RV,
       check_in_date = 739934, status = AVAILABLE, price = Some 60, max_occupancy = Some 6,
       amenities = [], scraped_at = 0, url = None \<rparr>)) = 5 \<and>
   park (\<lparr> park = CARLSBAD, site_id = ''47'', site_name = ''Beachfront Site'', site_type = RV,
       check_in_date = 739934, status = AVAILABLE, price = Some 60, max_occupancy = Some 6,
       amenities = [], scraped_at = 0, url = None \<rparr>) \<in> set (parks (\<lparr> rule_id = Some ''r1'', user_email = ''camper@example.com'', parks = [CARLSBAD],
       site_types = [RV], weekend_only = True, min_nights = 1, max_price = Some 0,
       advance_notice_days = 7, created_at = 0, updated_at = 0, is_active = True \<rparr>)) \<and> site_type (\<lparr> park = CARLSBAD, site_id = ''47'', site_name = ''Beachfront Site'', site_type = RV,
       check_in_date = 739934, status = AVAILABLE, price = Some 60, max_occupancy = Some 6,
       amenities = [], scraped_at = 0, url = None \<rparr>) \<in> set (site_types (\<lparr> rule_id = Some ''r1'', user_email = ''camper@example.com'', parks = [CARLSBAD],
       site_types = [RV], weekend_only = True, min_nights = 1, max_price = Some 0,
       advance_notice_days = 7, created_at = 0, updated_at = 0, is_active = True \<rparr>)) \<and>
   check_in_date (\<lparr> park = CARLSBAD, site_id = ''47'', site_name = ''Beachfront Site'', site_type = RV,
       check_in_date = 739934, status = AVAILABLE, price = Some 60, max_occupancy = Some 6,
       amenities = [], scraped_at = 0, url = None \<rparr>) - 739924 \<ge> advance_notice_days (\<lparr> rule_id = Some ''r1'', user_email = ''camper@example.com'', parks = [CARLSBAD],
       site_types = [RV], weekend_only = True, min_nights = 1, max_price = Some 0,
       advance_notice_days = 7, created_at = 0, updated_at = 0, is_active = True \<rparr>) \<and>
   \<not> min_nights (\<lparr> rule_id = Some ''r1'', user_email = ''camper@example.com'', parks = [CARLSBAD],
       site_types = [RV], weekend_only = True, min_nights = 1, max_price = Some 0,
       advance_notice_days = 7, created_at = 0, updated_at = 0, is_active = True \<rparr>) > 1 \<and>
   max_price (\<lparr> rule_id = Some ''r1'', user_email = ''camper@example.com'', parks = [CARLSBAD],
       site_types = [RV], weekend_only = True, min_nights = 1, max_price = Some 0,
       advance_notice_days = 7, created_at = 0, updated_at = 0, is_active = True \<rparr>) = Some 0 \<and> price (\<lparr> park = CARLSBAD, site_id = ''47'', site_name = ''Beachfront Site'', site_type = RV,
       check_in_date = 739934, status = AVAILABLE, price = Some 60, max_occupancy = Some 6,
       amenities = [], scraped_at = 0, url = None \<rparr>) = Some 60 \<and>
   matches_alert_rule 739924 (\<lparr> rule_id = Some ''r1'', user_email = ''camper@example.com'', parks = [CARLSBAD],
       site_types = [RV], weekend_only = True, min_nights = 1, max_price = Some 0,
       advance_notice_days = 7, created_at = 0, updated_at = 0, is_active = True \<rparr>) (\<lparr> park = CARLSBAD, site_id = ''47'', site_name = ''Beachfront Site'', site_type = RV,
       check_in_date = 739934, status = AVAILABLE, price = Some 60, max_occupancy = Some 6,
       amenities = [], scraped_at = 0, url = None \<rparr>) [(\<lparr> park = CARLSBAD, site_id = ''47'', site_name = ''Beachfront Site'', site_type = RV,
       check_in_date = 739934, status = AVAILABLE, price = Some 60, max_occupancy = Some 6,
       amenities = [], scraped_at = 0, url = None \<rparr>)] = Inr True \<and>
   \<not> rule_match_spec 739924 (\<lparr> rule_id = Some ''r1'', user_email = ''camper@example.com'', parks = [CARLSBAD],
       site_types = [RV], weekend_only = True, min_nights = 1, max_price = Some 0,
       advance_notice_days = 7, created_at = 0, updated_at = 0, is_active = True \<rparr>) (\<lparr> park = CARLSBAD, site_id = ''47'', site_name = ''Beachfront Site'', site_type = RV,
       check_in_date = 739934, status = AVAILABLE, price = Some 60, max_occupancy = Some 6,
       amenities = [], scraped_at = 0, url = None \<rparr>) [(\<lparr> park = CARLSBAD, site_id = ''47'', site_name = ''Beachfront Site'', site_type = RV,
       check_in_date = 739934, status = AVAILABLE, price = Some 60, max_occupancy = Some 6,
       amenities = [], scraped_at = 0, url = None \<rparr>)]"
  using matches_alert_rule_zero_max_price by (simp add: weekday_def)

subsection \<open>Sending alert notifications\<close>









lemma create_notification_record_site:
  "\<exists>r. create_notification_record env rule (Some s) st msg = Inr r \<and> nr_status r = st"
  by (simp add: create_notification_record_def Let_def)

lemma send_availability_alert_nonempty:
  assumes "chunk \<noteq> []"
  shows "\<exists>svc' r. send_availability_alert env svc rule chunk = (svc', Inr r) \<and>
     (nr_status r = SENT \<or> nr_status r = FAILED) \<and>
     stat_sent svc' + stat_failed svc' = stat_sent svc + stat_failed svc + 1 \<and>
     stat_sent svc' = stat_sent svc + (if nr_status r = SENT then 1 else 0)"
proof -
  obtain first others where c: "chunk = first # others" using assms by (cases chunk) auto
  show ?thesis
  proof (cases "send_email_ok env (stat_sent svc + stat_failed svc)")
    case True
    obtain r where "create_notification_record env rule (Some first) SENT None = Inr r"
      and "nr_status r = SENT"
      using create_notification_record_site by blast
    then show ?thesis using True c
      by (simp add: send_availability_alert_def send_email_def)
  next
    case False
    obtain r where "create_notification_record env rule (Some first) FAILED None = Inr r"
      and "nr_status r = FAILED"
      using create_notification_record_site by blast
    then show ?thesis using False c
      by (simp add: send_availability_alert_def send_email_def)
  qed
qed

lemma send_chunks_records:
  "\<forall>c \<in> set chunks. c \<noteq> [] \<Longrightarrow>
   \<exists>proc' recs. send_chunks env rule chunks (proc, n) =
        Inr (proc', n + length (filter (\<lambda>r. nr_status r = SENT) recs)) \<and>
      notification_batch proc' = notification_batch proc @ recs \<and>
      length recs = length chunks \<and>
      stat_sent (email proc') + stat_failed (email proc') =
        stat_sent (email proc) + stat_failed (email proc) + length chunks \<and>
      stat_sent (email proc') = stat_sent (email proc) + length (filter (\<lambda>r. nr_status r = SENT) recs) \<and>
      processed_notifications proc \<subseteq> processed_notifications proc'"
proof (induction chunks arbitrary: proc n)
  case Nil
  then show ?case by simp
next
  case (Cons chunk rest)
  then have ne: "chunk \<noteq> []" and rest: "\<forall>c \<in> set rest. c \<noteq> []" by simp_all
  obtain svc' r where sa: "send_availability_alert env (email proc) rule chunk = (svc', Inr r)"
    and st: "nr_status r = SENT \<or> nr_status r = FAILED"
    and at: "stat_sent svc' + stat_failed svc' = stat_sent (email proc) + stat_failed (email proc) + 1"
    and ss: "stat_sent svc' = stat_sent (email proc) + (if nr_status r = SENT then 1 else 0)"
    using send_availability_alert_nonempty [OF ne, of env "email proc" rule] by blast
  let ?proc1 = "proc\<lparr> email := svc', notification_batch := notification_batch proc @ [r] \<rparr>"
  let ?proc2 = "?proc1\<lparr> processed_notifications :=
                   processed_notifications ?proc1 \<union> set (map availability_key chunk) \<rparr>"
  show ?case
  proof (cases "nr_status r = SENT")
    case True
    from Cons.IH [OF rest, of ?proc2 "n + 1"] obtain proc' recs where
      a: "send_chunks env rule rest (?proc2, n + 1) =
            Inr (proc', n + 1 + length (filter (\<lambda>r. nr_status r = SENT) recs))"
      and b: "notification_batch proc' = notification_batch ?proc2 @ recs"
      and c: "length recs = length rest"
      and d: "stat_sent (email proc') + stat_failed (email proc') =
                stat_sent (email ?proc2) + stat_failed (email ?proc2) + length rest"
      and f: "stat_sent (email proc') = stat_sent (email ?proc2) + length (filter (\<lambda>r. nr_status r = SENT) recs)"
      and e: "processed_notifications ?proc2 \<subseteq> processed_notifications proc'"
      by blast
    have "send_chunks env rule (chunk # rest) (proc, n) =
            Inr (proc', n + length (filter (\<lambda>r. nr_status r = SENT) (r # recs)))"
      using sa True a by (simp add: Let_def)
    moreover have "notification_batch proc' = notification_batch proc @ (r # recs)" using b by simp
    moreover have "length (r # recs) = length (chunk # rest)" using c by simp
    moreover have "stat_sent (email proc') + stat_failed (email proc') =
        stat_sent (email proc) + stat_failed (email proc) + length (chunk # rest)"
      using d at by simp
    moreover have "stat_sent (email proc') =
        stat_sent (email proc) + length (filter (\<lambda>r. nr_status r = SENT) (r # recs))"
      using f ss True by simp
    moreover have "processed_notifications proc \<subseteq> processed_notifications proc'" using e by auto
    ultimately show ?thesis by blast
  next
    case False
    from Cons.IH [OF rest, of ?proc1 n] obtain proc' recs where
      a: "send_chunks env rule rest (?proc1, n) =
            Inr (proc', n + length (filter (\<lambda>r. nr_status r = SENT) recs))"
      and b: "notification_batch proc' = notification_batch ?proc1 @ recs"
      and c: "length recs = length rest"
      and d: "stat_sent (email proc') + stat_failed (email proc') =
                stat_sent (email ?proc1) + stat_failed (email ?proc1) + length rest"
      and f: "stat_sent (email proc') = stat_sent (email ?proc1) + length (filter (\<lambda>r. nr_status r = SENT) recs)"
      and e: "processed_notifications ?proc1 \<subseteq> processed_notifications proc'"
      by blast
    have "send_chunks env rule (chunk # rest) (proc, n) =
            Inr (proc', n + length (filter (\<lambda>r. nr_status r = SENT) (r # recs)))"
      using sa False a by (simp add: Let_def)
    moreover have "notification_batch proc' = notification_batch proc @ (r # recs)" using b by simp
    moreover have "length (r # recs) = length (chunk # rest)" using c by simp
    moreover have "stat_sent (email proc') + stat_failed (email proc') =
        stat_sent (email proc) + stat_failed (email proc) + length (chunk # rest)"
      using d at by simp
    moreover have "stat_sent (email proc') =
        stat_sent (email proc) + length (filter (\<lambda>r. nr_status r = SENT) (r # recs))"
      using f ss False by simp
    moreover have "processed_notifications proc \<subseteq> processed_notifications proc'" using e by auto
    ultimately show ?thesis by blast
  qed
qed

lemma send_parks_records:
  "\<exists>proc' recs. send_parks env rule groups (proc, n) =
        Inr (proc', n + length (filter (\<lambda>r. nr_status r = SENT) recs)) \<and>
      notification_batch proc' = notification_batch proc @ recs \<and>
      length recs = length (concat (map (\<lambda>(p, site_list). slices 10 site_list) groups)) \<and>
      stat_sent (email proc') + stat_failed (email proc') =
        stat_sent (email proc) + stat_failed (email proc)
          + length (concat (map (\<lambda>(p, site_list). slices 10 site_list) groups)) \<and>
      stat_sent (email proc') = stat_sent (email proc) + length (filter (\<lambda>r. nr_status r = SENT) recs) \<and>
      processed_notifications proc \<subseteq> processed_notifications proc'"
proof (induction groups arbitrary: proc n)
  case Nil
  then show ?case by simp
next
  case (Cons g groups)
  obtain p site_list where g: "g = (p, site_list)" by (cases g)
  have "\<forall>c \<in> set (slices 10 site_list). c \<noteq> []"
  proof
    fix c assume "c \<in> set (slices 10 site_list)"
    from slices_bounds [OF _ this] show "c \<noteq> []" by simp
  qed
  from send_chunks_records [OF this, of env rule proc n] obtain proc1 recs1 where
    a1: "send_chunks env rule (slices 10 site_list) (proc, n) =
           Inr (proc1, n + length (filter (\<lambda>r. nr_status r = SENT) recs1))"
    and b1: "notification_batch proc1 = notification_batch proc @ recs1"
    and c1: "length recs1 = length (slices 10 site_list)"
    and d1: "stat_sent (email proc1) + stat_failed (email proc1) =
               stat_sent (email proc) + stat_failed (email proc) + length (slices 10 site_list)"
    and f1: "stat_sent (email proc1) = stat_sent (email proc) + length (filter (\<lambda>r. nr_status r = SENT) recs1)"
    and e1: "processed_notifications proc \<subseteq> processed_notifications proc1"
    by blast
  from Cons.IH [of proc1 "n + length (filter (\<lambda>r. nr_status r = SENT) recs1)"]
  obtain proc' recs where
    a: "send_parks env rule groups (proc1, n + length (filter (\<lambda>r. nr_status r = SENT) recs1)) =
          Inr (proc', n + length (filter (\<lambda>r. nr_status r = SENT) recs1)
                 + length (filter (\<lambda>r. nr_status r = SENT) recs))"
    and b: "notification_batch proc' = notification_batch proc1 @ recs"
    and c: "length recs = length (concat (map (\<lambda>(p, site_list). slices 10 site_list) groups))"
    and d: "stat_sent (email proc') + stat_failed (email proc') =
              stat_sent (email proc1) + stat_failed (email proc1)
                + length (concat (map (\<lambda>(p, site_list). slices 10 site_list) groups))"
    and f: "stat_sent (email proc') = stat_sent (email proc1) + length (filter (\<lambda>r. nr_status r = SENT) recs)"
    and e: "processed_notifications proc1 \<subseteq> processed_notifications proc'"
    by blast
  have "send_parks env rule (g # groups) (proc, n) =
          Inr (proc', n + length (filter (\<lambda>r. nr_status r = SENT) (recs1 @ recs)))"
    using g a1 a by simp
  moreover have "notification_batch proc' = notification_batch proc @ (recs1 @ recs)"
    using b b1 by simp
  moreover have "length (recs1 @ recs) =
      length (concat (map (\<lambda>(p, site_list). slices 10 site_list) (g # groups)))"
    using g c c1 by simp
  moreover have "stat_sent (email proc') + stat_failed (email proc') =
        stat_sent (email proc) + stat_failed (email proc)
          + length (concat (map (\<lambda>(p, site_list). slices 10 site_list) (g # groups)))"
    using g d d1 by simp
  moreover have "stat_sent (email proc') =
      stat_sent (email proc) + length (filter (\<lambda>r. nr_status r = SENT) (recs1 @ recs))"
    using f f1 by simp
  moreover have "processed_notifications proc \<subseteq> processed_notifications proc'"
    using e e1 by auto
  ultimately show ?case by blast
qed






subsection \<open>The processor's accumulator across calls\<close>

lemma send_alert_notification_state:
  "processed_notifications proc \<subseteq> processed_notifications (fst (send_alert_notification env rule ms proc))"
  using send_parks_records [of env rule "sites_by_park ms" proc 0]
  by (auto simp: send_alert_notification_def)

lemma process_rules_state:
  "processed_notifications proc \<subseteq>
     processed_notifications (fst (process_rules env today availability rules (proc, stats)))"
proof (induction rules arbitrary: proc stats)
  case Nil
  then show ?case by simp
next
  case (Cons rule rules)
  show ?case
  proof (cases "find_matching_availability env today rule availability")
    case (Inl e)
    then show ?thesis using Cons.IH by simp
  next
    case (Inr matches)
    show ?thesis
    proof (cases "matches = []")
      case True
      then show ?thesis using Inr Cons.IH by simp
    next
      case False
      obtain proc' sent where s: "send_alert_notification env rule matches proc = (proc', sent)"
        by (cases "send_alert_notification env rule matches proc")
      have "processed_notifications proc \<subseteq> processed_notifications proc'"
        using send_alert_notification_state [of proc env rule matches] s by simp
      moreover have "processed_notifications proc' \<subseteq> processed_notifications
          (fst (process_rules env today availability (rule # rules) (proc, stats)))"
        using Inr False s Cons.IH by simp
      ultimately show ?thesis by blast
    qed
  qed
qed

text \<open>
  C4 (as amended). The accumulator is held in two fields of the processor, both empty
  when the processor is constructed. The pending batch is scoped to one call of
  \<open>process_new_availability\<close>: if it is empty when a call starts it is empty when the
  call returns (what was buffered has been passed to the store). The set of processed
  keys is not: a call only adds to it, so every key present before a call, from
  whatever earlier call, is still present after it.
\<close>

theorem accumulator_across_calls:
  "notification_batch new_AlertProcessor = [] \<and>
   processed_notifications new_AlertProcessor = {} \<and>
   (notification_batch proc = [] \<longrightarrow>
      notification_batch (fst (process_new_availability env today proc availability)) = []) \<and>
   processed_notifications proc \<subseteq>
     processed_notifications (fst (process_new_availability env today proc availability))"
proof (intro conjI impI)
  show "notification_batch new_AlertProcessor = []" by (simp add: new_AlertProcessor_def)
  show "processed_notifications new_AlertProcessor = {}" by (simp add: new_AlertProcessor_def)
next
  assume "notification_batch proc = []"
  then show "notification_batch (fst (process_new_availability env today proc availability)) = []"
    by (simp add: process_new_availability_def Let_def store_notification_batch_def
             split: prod.splits)
next
  let ?stats = "\<lparr> notifications_sent = 0, rules_processed = length (get_active_alert_rules env),
                  errors = [], availability_processed = Some (length availability),
                  weekend_sites_found = Some (length (filter (\<lambda>site. is_weekend_date (check_in_date site)
                     \<and> status site = AVAILABLE) availability)), rules_matched = Some 0 \<rparr>"
  have "processed_notifications (fst (process_new_availability env today proc availability)) =
     (if availability = [] \<or> get_active_alert_rules env = [] then processed_notifications proc
      else processed_notifications
             (fst (process_rules env today availability (get_active_alert_rules env) (proc, ?stats))))"
    by (simp add: process_new_availability_def Let_def store_notification_batch_def
             split: prod.splits)
  then show "processed_notifications proc \<subseteq>
     processed_notifications (fst (process_new_availability env today proc availability))"
    using process_rules_state [of proc env today availability "get_active_alert_rules env" ?stats]
    by simp
qed


text \<open>
  Witness: a fresh processor, one active rule and one matching Saturday site; the call
  ends with an empty batch after passing one \<open>SENT\<close> record to the store.
\<close>

theorem accumulator_across_calls_witness:
  "notification_batch new_AlertProcessor = [] \<and>
   notification_batch (fst (process_new_availability \<lparr> get_active_alert_rules =
            [\<lparr> rule_id = Some ''r1'', user_email = ''camper@example.com'', parks = [CARLSBAD],
               site_types = [RV], weekend_only = True, min_nights = 1, max_price = Some 100,
               advance_notice_days = 7, created_at = 0, updated_at = 0, is_active = True \<rparr>],
          alert_cooldown_hours = 24,
          check_notification_sent = (\<lambda>p s d h. False), record_notification = (\<lambda>r. True),
          send_email_ok = (\<lambda>n. True), utcnow = 0, utcnow_date = 739924 \<rparr> 739924 new_AlertProcessor [\<lparr> park = CARLSBAD, site_id = ''47'', site_name = ''Beachfront Site'', site_type = RV,
          check_in_date = 739934, status = AVAILABLE, price = Some 60, max_occupancy = Some 6,
          amenities = [], scraped_at = 0, url = None \<rparr>])) = [] \<and>
   map nr_status (snd (snd (process_new_availability \<lparr> get_active_alert_rules =
            [\<lparr> rule_id = Some ''r1'', user_email = ''camper@example.com'', parks = [CARLSBAD],
               site_types = [RV], weekend_only = True, min_nights = 1, max_price = Some 100,
               advance_notice_days = 7, created_at = 0, updated_at = 0, is_active = True \<rparr>],
          alert_cooldown_hours = 24,
          check_notification_sent = (\<lambda>p s d h. False), record_notification = (\<lambda>r. True),
          send_email_ok = (\<lambda>n. True), utcnow = 0, utcnow_date = 739924 \<rparr> 739924 new_AlertProcessor [\<lparr> park = CARLSBAD, site_id = ''47'', site_name = ''Beachfront Site'', site_type = RV,
          check_in_date = 739934, status = AVAILABLE, price = Some 60, max_occupancy = Some 6,
          amenities = [], scraped_at = 0, url = None \<rparr>]))) = [SENT]"
proof -
  let ?env = "\<lparr> get_active_alert_rules =
            [\<lparr> rule_id = Some ''r1'', user_email = ''camper@example.com'', parks = [CARLSBAD],
               site_types = [RV], weekend_only = True, min_nights = 1, max_price = Some 100,
               advance_notice_days = 7, created_at = 0, updated_at = 0, is_active = True \<rparr>],
          alert_cooldown_hours = 24,
          check_notification_sent = (\<lambda>p s d h. False), record_notification = (\<lambda>r. True),
          send_email_ok = (\<lambda>n. True), utcnow = 0, utcnow_date = 739924 \<rparr>"
  let ?site = "\<lparr> park = CARLSBAD, site_id = ''47'', site_name = ''Beachfront Site'', site_type = RV,
          check_in_date = 739934, status = AVAILABLE, price = Some 60, max_occupancy = Some 6,
          amenities = [], scraped_at = 0, url = None \<rparr>"
  have s: "map nr_status (snd (snd (process_new_availability ?env 739924 new_AlertProcessor [?site])))
             = [SENT]"
    by code_simp
  note t = accumulator_across_calls [of new_AlertProcessor ?env 739924 "[?site]"]
  have e: "notification_batch new_AlertProcessor = []" using t [THEN conjunct1] .
  have b: "notification_batch (fst (process_new_availability ?env 739924 new_AlertProcessor [?site])) = []"
    using t [THEN conjunct2, THEN conjunct2, THEN conjunct1, THEN mp, OF e] .
  show ?thesis by (rule conjI [OF e conjI [OF b s]])
qed

text \<open>
  The claim as stated fails: after that call the set of processed keys holds the key of
  the site, so a second call on the same processor does not start from an empty
  accumulator, and after the second call (for another date) the first key is still there.
\<close>

theorem accumulator_across_calls_counterexample:
  "processed_notifications (fst (process_new_availability \<lparr> get_active_alert_rules =
            [\<lparr> rule_id = Some ''r1'', user_email = ''camper@example.com'', parks = [CARLSBAD],
               site_types = [RV], weekend_only = True, min_nights = 1, max_price = Some 100,
               advance_notice_days = 7, created_at = 0, updated_at = 0, is_active = True \<rparr>],
          alert_cooldown_hours = 24,
          check_notification_sent = (\<lambda>p s d h. False), record_notification = (\<lambda>r. True),
          send_email_ok = (\<lambda>n. True), utcnow = 0, utcnow_date = 739924 \<rparr> 739924 new_AlertProcessor [\<lparr> park = CARLSBAD, site_id = ''47'', site_name = ''Beachfront Site'', site_type = RV,
          check_in_date = 739934, status = AVAILABLE, price = Some 60, max_occupancy = Some 6,
          amenities = [], scraped_at = 0, url = None \<rparr>]))
     = {''carlsbad_47_2026-11-14''} \<and>
   processed_notifications
     (fst (process_new_availability \<lparr> get_active_alert_rules =
            [\<lparr> rule_id = Some ''r1'', user_email = ''camper@example.com'', parks = [CARLSBAD],
               site_types = [RV], weekend_only = True, min_nights = 1, max_price = Some 100,
               advance_notice_days = 7, created_at = 0, updated_at = 0, is_active = True \<rparr>],
          alert_cooldown_hours = 24,
          check_notification_sent = (\<lambda>p s d h. False), record_notification = (\<lambda>r. True),
          send_email_ok = (\<lambda>n. True), utcnow = 0, utcnow_date = 739924 \<rparr> 739924
        (fst (process_new_availability \<lparr> get_active_alert_rules =
            [\<lparr> rule_id = Some ''r1'', user_email = ''camper@example.com'', parks = [CARLSBAD],
               site_types = [RV], weekend_only = True, min_nights = 1, max_price = Some 100,
               advance_notice_days = 7, created_at = 0, updated_at = 0, is_active = True \<rparr>],
          alert_cooldown_hours = 24,
          check_notification_sent = (\<lambda>p s d h. False), record_notification = (\<lambda>r. True),
          send_email_ok = (\<lambda>n. True), utcnow = 0, utcnow_date = 739924 \<rparr> 739924 new_AlertProcessor [\<lparr> park = CARLSBAD, site_id = ''47'', site_name = ''Beachfront Site'', site_type = RV,
          check_in_date = 739934, status = AVAILABLE, price = Some 60, max_occupancy = Some 6,
          amenities = [], scraped_at = 0, url = None \<rparr>])) [\<lparr> park = CARLSBAD, site_id = ''47'', site_name = ''Beachfront Site'', site_type = RV,
          check_in_date = 739935, status = AVAILABLE, price = Some 60, max_occupancy = Some 6,
          amenities = [], scraped_at = 0, url = None \<rparr>]))
     = {''carlsbad_47_2026-11-14'', ''carlsbad_47_2026-11-15''}"
  by code_simp

end
